theory Spec2Isabelle
  imports Main
begin

section \<open>Platform primitives used by the recorder\<close>

subsection \<open>Time values\<close>

text \<open>
  A JavaScript \<^verbatim>\<open>Date\<close> holds a time value: the number of milliseconds since
  1970-01-01T00:00:00Z. The functions below are the day and time arithmetic of ECMA-262
  (section "Time Values and Time Range"), under the names the standard gives them.
  The standard defines \<open>YearFromTime t\<close> as the largest year whose first day is not
  after \<open>t\<close>; here it is computed from an estimate that is at most one year off, and
  \<open>YearFromDay_bounds\<close> and \<open>YearFromDay_largest\<close> below show that the result is
  the year of the standard.
\<close>

type_synonym time_value = int

definition msPerSecond :: int where "msPerSecond = 1000"
definition msPerMinute :: int where "msPerMinute = 60000"
definition msPerHour :: int where "msPerHour = 3600000"
definition msPerDay :: int where "msPerDay = 86400000"

definition Day :: "time_value \<Rightarrow> int" where
  "Day t = t div msPerDay"

definition TimeWithinDay :: "time_value \<Rightarrow> int" where
  "TimeWithinDay t = t mod msPerDay"

definition DaysInYear :: "int \<Rightarrow> int" where
  "DaysInYear y =
     (if y mod 4 \<noteq> 0 then 365
      else if y mod 100 \<noteq> 0 then 366
      else if y mod 400 \<noteq> 0 then 365
      else 366)"

definition DayFromYear :: "int \<Rightarrow> int" where
  "DayFromYear y =
     365 * (y - 1970) + (y - 1969) div 4 - (y - 1901) div 100 + (y - 1601) div 400"

definition YearFromDay :: "int \<Rightarrow> int" where
  "YearFromDay d =
     (let y = 1970 + (d * 10000) div 3652425
      in if d < DayFromYear y then y - 1
         else if DayFromYear (y + 1) \<le> d then y + 1
         else y)"

definition YearFromTime :: "time_value \<Rightarrow> int" where
  "YearFromTime t = YearFromDay (Day t)"

definition InLeapYear :: "time_value \<Rightarrow> bool" where
  "InLeapYear t = (DaysInYear (YearFromTime t) = 366)"

definition DayWithinYear :: "time_value \<Rightarrow> int" where
  "DayWithinYear t = Day t - DayFromYear (YearFromTime t)"

text \<open>
  The first day of month \<open>m\<close> (0 is January) counted from the first day of the year;
  \<open>MonthStart 12\<close> is the length of the year.
\<close>

definition MonthStart :: "bool \<Rightarrow> int \<Rightarrow> int" where
  "MonthStart leap m =
     (let l = (if leap then 1 else 0)
      in if m \<le> 0 then 0
         else if m = 1 then 31
         else if m = 2 then 59 + l
         else if m = 3 then 90 + l
         else if m = 4 then 120 + l
         else if m = 5 then 151 + l
         else if m = 6 then 181 + l
         else if m = 7 then 212 + l
         else if m = 8 then 243 + l
         else if m = 9 then 273 + l
         else if m = 10 then 304 + l
         else if m = 11 then 334 + l
         else 365 + l)"

definition MonthFromTime :: "time_value \<Rightarrow> int" where
  "MonthFromTime t =
     (let d = DayWithinYear t; leap = InLeapYear t
      in if d < MonthStart leap 1 then 0
         else if d < MonthStart leap 2 then 1
         else if d < MonthStart leap 3 then 2
         else if d < MonthStart leap 4 then 3
         else if d < MonthStart leap 5 then 4
         else if d < MonthStart leap 6 then 5
         else if d < MonthStart leap 7 then 6
         else if d < MonthStart leap 8 then 7
         else if d < MonthStart leap 9 then 8
         else if d < MonthStart leap 10 then 9
         else if d < MonthStart leap 11 then 10
         else 11)"

definition DateFromTime :: "time_value \<Rightarrow> int" where
  "DateFromTime t = DayWithinYear t - MonthStart (InLeapYear t) (MonthFromTime t) + 1"

definition HourFromTime :: "time_value \<Rightarrow> int" where
  "HourFromTime t = (t div msPerHour) mod 24"

definition MinFromTime :: "time_value \<Rightarrow> int" where
  "MinFromTime t = (t div msPerMinute) mod 60"

definition SecFromTime :: "time_value \<Rightarrow> int" where
  "SecFromTime t = (t div msPerSecond) mod 60"

definition msFromTime :: "time_value \<Rightarrow> int" where
  "msFromTime t = t mod msPerSecond"

definition MakeTime :: "int \<Rightarrow> int \<Rightarrow> int \<Rightarrow> int \<Rightarrow> int" where
  "MakeTime hour minute sec ms =
     hour * msPerHour + minute * msPerMinute + sec * msPerSecond + ms"

definition MakeDay :: "int \<Rightarrow> int \<Rightarrow> int \<Rightarrow> int" where
  "MakeDay year month date =
     (let ym = year + month div 12; mn = month mod 12
      in DayFromYear ym + MonthStart (DaysInYear ym = 366) mn + date - 1)"

definition MakeDate :: "int \<Rightarrow> int \<Rightarrow> time_value" where
  "MakeDate day time = day * msPerDay + time"

text \<open>
  \<^verbatim>\<open>new Date(year, month, date, hours, minutes, seconds)\<close>: the arguments are read in
  local time; a year from 0 to 99 stands for 1900 + year. \<open>tza\<close> is the offset of local
  time from UTC in milliseconds at a given local time (the standard's LocalTZA; it is
  the platform's, so every function that needs it takes it as a parameter). The time
  value is clipped by the standard to \<open>8.64 * 10^15\<close> in absolute value; the callers
  here pass a four-digit year and two-digit fields, which stay far inside that range.
\<close>

definition UTC :: "(int \<Rightarrow> int) \<Rightarrow> int \<Rightarrow> time_value" where
  "UTC tza t = t - tza t"

definition newDate6 :: "(int \<Rightarrow> int) \<Rightarrow> int \<Rightarrow> int \<Rightarrow> int \<Rightarrow> int \<Rightarrow> int \<Rightarrow> int \<Rightarrow> time_value" where
  "newDate6 tza year month date hours minutes seconds =
     (let yr = (if 0 \<le> year \<and> year \<le> 99 then 1900 + year else year)
      in UTC tza (MakeDate (MakeDay yr month date) (MakeTime hours minutes seconds 0)))"


subsection \<open>Strings\<close>

text \<open>
  Decimal digits, the standard's ToZeroPaddedDecimalString, and the string methods the
  recorder calls: \<^verbatim>\<open>replace\<close> with a global character-class pattern, \<^verbatim>\<open>replace\<close> with
  a string pattern (first occurrence only), \<^verbatim>\<open>slice(0, n)\<close>, \<^verbatim>\<open>endsWith\<close> and
  \<^verbatim>\<open>parseInt\<close> on a run of digits.
\<close>

definition digit_char :: "nat \<Rightarrow> char" where
  "digit_char d = ''0123456789'' ! (d mod 10)"

definition is_digit :: "char \<Rightarrow> bool" where
  "is_digit c = (c \<in> set ''0123456789'')"

definition digit_val :: "char \<Rightarrow> int" where
  "digit_val c = int (of_char c) - 48"

fun decimal :: "nat \<Rightarrow> string" where
  "decimal n = (if n < 10 then [digit_char n] else decimal (n div 10) @ [digit_char n])"

declare decimal.simps [simp del]

definition ToZeroPaddedDecimalString :: "nat \<Rightarrow> nat \<Rightarrow> string" where
  "ToZeroPaddedDecimalString n minLength =
     (let S = decimal n in replicate (minLength - length S) (CHR ''0'') @ S)"

definition replace_colon_dot :: "string \<Rightarrow> string" where
  "replace_colon_dot s = map (\<lambda>c. if c = CHR '':'' \<or> c = CHR ''.'' then CHR ''-'' else c) s"

fun replace_first :: "char \<Rightarrow> char \<Rightarrow> string \<Rightarrow> string" where
  "replace_first a b [] = []"
| "replace_first a b (c # cs) = (if c = a then b # cs else c # replace_first a b cs)"

definition slice0 :: "nat \<Rightarrow> string \<Rightarrow> string" where
  "slice0 n s = take n s"

definition endsWith :: "string \<Rightarrow> string \<Rightarrow> bool" where
  "endsWith s suf = (length suf \<le> length s \<and> drop (length s - length suf) s = suf)"

definition parseInt :: "string \<Rightarrow> int" where
  "parseInt s = foldl (\<lambda>a c. 10 * a + digit_val c) 0 s"

text \<open>
  \<^verbatim>\<open>Date.prototype.toISOString\<close>: the UTC fields of the time value as
  \<^verbatim>\<open>YYYY-MM-DDTHH:mm:ss.sssZ\<close>; a year outside 0 to 9999 is written with a sign and
  six digits.
\<close>

definition toISOString :: "time_value \<Rightarrow> string" where
  "toISOString t =
     (let year = YearFromTime t;
          yearString =
            (if 0 \<le> year \<and> year \<le> 9999 then ToZeroPaddedDecimalString (nat year) 4
             else (if 0 < year then ''+'' else ''-'') @ ToZeroPaddedDecimalString (nat \<bar>year\<bar>) 6)
      in yearString @ ''-''
         @ ToZeroPaddedDecimalString (nat (MonthFromTime t + 1)) 2 @ ''-''
         @ ToZeroPaddedDecimalString (nat (DateFromTime t)) 2 @ ''T''
         @ ToZeroPaddedDecimalString (nat (HourFromTime t)) 2 @ '':''
         @ ToZeroPaddedDecimalString (nat (MinFromTime t)) 2 @ '':''
         @ ToZeroPaddedDecimalString (nat (SecFromTime t)) 2 @ ''.''
         @ ToZeroPaddedDecimalString (nat (msFromTime t)) 3 @ ''Z'')"

subsection \<open>The artifact pattern\<close>

text \<open>
  The regular expression of \<^verbatim>\<open>loadRecordings\<close>,
  \<^verbatim>\<open>/recording-(\d{4})-(\d{2})-(\d{2})-(\d{2})-(\d{2})-(\d{2})\.webm/\<close>, is a sequence of
  literals and fixed-length digit groups, so matching at a position needs no
  backtracking. The expression is not anchored: \<^verbatim>\<open>String.prototype.match\<close> returns the
  groups of the leftmost position where it matches.
\<close>

datatype token = Lit string | Digits nat

fun match_tokens :: "token list \<Rightarrow> string \<Rightarrow> string list option" where
  "match_tokens [] s = Some []"
| "match_tokens (Lit l # ts) s =
     (if take (length l) s = l then match_tokens ts (drop (length l) s) else None)"
| "match_tokens (Digits n # ts) s =
     (let g = take n s
      in if length g = n \<and> list_all is_digit g
         then map_option (Cons g) (match_tokens ts (drop n s))
         else None)"

fun match_anywhere :: "token list \<Rightarrow> string \<Rightarrow> string list option" where
  "match_anywhere ts [] = match_tokens ts []"
| "match_anywhere ts (c # cs) =
     (case match_tokens ts (c # cs) of
        Some groups \<Rightarrow> Some groups
      | None \<Rightarrow> match_anywhere ts cs)"

definition recording_pattern :: "token list" where
  "recording_pattern =
     [Lit ''recording-'', Digits 4, Lit ''-'', Digits 2, Lit ''-'', Digits 2, Lit ''-'',
      Digits 2, Lit ''-'', Digits 2, Lit ''-'', Digits 2, Lit ''.webm'']"

subsection \<open>Thrown values, blobs, tracks, files\<close>

text \<open>
  A rejected promise or a thrown exception carries a value; the handlers only look at
  whether it is an \<^verbatim>\<open>Error\<close> and at its name and message.
\<close>

datatype thrown = JsError (err_name: string) (err_message: string) | NotAnError

record blob =
  blob_bytes :: "nat list"
  blob_type :: string

definition blob_size :: "blob \<Rightarrow> nat" where
  "blob_size b = length (blob_bytes b)"

definition newBlob :: "blob list \<Rightarrow> string \<Rightarrow> blob" where
  "newBlob parts ty = \<lparr>blob_bytes = concat (map blob_bytes parts), blob_type = ty\<rparr>"

datatype track_kind = Video | Audio

record track =
  track_kind :: track_kind
  track_id :: nat

type_synonym media_stream = "track list"

definition getVideoTracks :: "media_stream \<Rightarrow> track list" where
  "getVideoTracks ms = filter (\<lambda>t. track_kind t = Video) ms"

definition getAudioTracks :: "media_stream \<Rightarrow> track list" where
  "getAudioTracks ms = filter (\<lambda>t. track_kind t = Audio) ms"

text \<open>
  The folder behind a \<^verbatim>\<open>FileSystemDirectoryHandle\<close>: the entries its \<^verbatim>\<open>values()\<close>
  iterator yields, and the value the iterator rejects with after them, if it does (a
  revoked permission). \<^verbatim>\<open>getFile\<close> of an entry either rejects or gives the file's
  size and modification time.
\<close>

datatype handle_kind = KindFile | KindDirectory

record js_file =
  lastModified :: time_value
  file_size :: nat

record entry =
  entry_kind :: handle_kind
  entry_name :: string
  getFile :: "thrown + js_file"

record directory =
  dir_values :: "entry list"
  dir_values_rejects :: "thrown option"

text \<open>
  \<^verbatim>\<open>Array.prototype.sort\<close> with a comparator: the standard requires a stable sort.
  An element moves behind another only when the comparator is positive.
\<close>

fun insert_sorted :: "('a \<Rightarrow> 'a \<Rightarrow> int) \<Rightarrow> 'a \<Rightarrow> 'a list \<Rightarrow> 'a list" where
  "insert_sorted cmp x [] = [x]"
| "insert_sorted cmp x (y # ys) =
     (if cmp x y \<le> 0 then x # y # ys else y # insert_sorted cmp x ys)"

definition array_sort :: "('a \<Rightarrow> 'a \<Rightarrow> int) \<Rightarrow> 'a list \<Rightarrow> 'a list" where
  "array_sort cmp xs = foldr (insert_sorted cmp) xs []"

section \<open>The recorder\<close>

subsection \<open>Filename generation\<close>

text \<open>
  \<^verbatim>\<open>generateFilename\<close> reads the wall clock (\<^verbatim>\<open>new Date()\<close>), which the model takes
  as the argument \<open>now\<close>.
\<close>

definition generateFilename :: "time_value \<Rightarrow> string" where
  "generateFilename now =
     (let timestamp = slice0 19 (replace_first (CHR ''T'') (CHR ''-'')
                        (replace_colon_dot (toISOString now)))
      in ''recording-'' @ timestamp @ ''.webm'')"


subsection \<open>Component state and environment\<close>

text \<open>
  The state of the \<^verbatim>\<open>App\<close> component that the recording and catalog handlers read and
  write: its \<^verbatim>\<open>useState\<close> values, its refs, the local storage, the intervals that are
  running, and a log of the calls the handlers make to the platform (devices, streams,
  recorder, tracks, files), in order. A folder handle is modelled by the folder it designates, and
  each track of a session's stream is paired with the source it was taken from.
  \<^verbatim>\<open>handleSelectFolder\<close>, \<^verbatim>\<open>handleClearFolder\<close> and \<^verbatim>\<open>handleToggleScreen\<close> are not
  part of the model, so the folder a handler closed over is the one of the state; the
  screen stream a recorder's handlers closed over is kept with the recorder.
\<close>

datatype capture_source = Screen | Camera | Microphone

datatype recorder_state = Inactive | Recording | Paused

record media_recorder =
  rec_state :: recorder_state
  rec_stream :: "(capture_source \<times> track) list"
  rec_mimeType :: string
  rec_screenStream :: "media_stream option"

record recording_metadata =
  filename :: string
  timestamp :: time_value
  size_bytes :: nat
  fileHandle :: entry

datatype effect =
    GetUserMedia capture_source "string option"
  | NewMediaStream "(capture_source \<times> track) list"
  | NewMediaRecorder "(capture_source \<times> track) list" string
  | RecorderStop
  | TrackStop track
  | FolderWrite string blob
  | Download string blob

record app_state =
  folderHandle :: "directory option"
  deviceError :: "string option"
  selectedMicId :: string
  selectedCameraId :: string
  isMicEnabled :: bool
  isCameraEnabled :: bool
  isScreenEnabled :: bool
  screenStream :: "media_stream option"
  isRecording :: bool
  recordingError :: "string option"
  recordingDuration :: nat
  saveSuccess :: "string option"
  recordings :: "recording_metadata list"
  isLoadingRecordings :: bool
  playbackError :: "string option"
  mediaRecorderRef :: "media_recorder option"
  recordedChunksRef :: "blob list"
  mediaStreamRef :: "(capture_source \<times> track) list option"
  recordingTimerRef :: "nat option"
  localStorage :: "string \<rightharpoonup> string"
  intervals :: "nat list"
  effects :: "effect list"

text \<open>
  What the platform answers during one handler: the wall clock, the local time zone,
  the devices, the encoder, the identifier of the new interval (the platform gives
  positive ones; a ref holding 0 fails the handlers' test of the ref), the outcome of the
  write through the folder handle (any of its four awaited steps may reject) and the
  modification time the written file gets, and the data the recorder delivers when it is
  stopped.
\<close>

record env =
  now :: time_value
  LocalTZA :: "int \<Rightarrow> int"
  getUserMedia_video :: "string option \<Rightarrow> thrown + media_stream"
  getUserMedia_audio :: "string option \<Rightarrow> thrown + media_stream"
  isTypeSupported :: "string \<Rightarrow> bool"
  newMediaRecorder_throws :: "thrown option"
  start_throws :: "thrown option"
  setInterval_id :: nat
  folder_write_rejects :: "thrown option"
  written_lastModified :: time_value
  final_data :: blob

definition MIC_ENABLED_KEY :: string where
  "MIC_ENABLED_KEY = ''loom-clone-mic-enabled''"

definition CAMERA_ENABLED_KEY :: string where
  "CAMERA_ENABLED_KEY = ''loom-clone-camera-enabled''"

definition String_of_bool :: "bool \<Rightarrow> string" where
  "String_of_bool b = (if b then ''true'' else ''false'')"

subsection \<open>Recordings catalog\<close>

definition recording_timestamp :: "(int \<Rightarrow> int) \<Rightarrow> string \<Rightarrow> js_file \<Rightarrow> time_value" where
  "recording_timestamp tza nm f =
     (case match_anywhere recording_pattern nm of
        Some groups \<Rightarrow>
          newDate6 tza
            (parseInt (groups ! 0))
            (parseInt (groups ! 1) - 1)
            (parseInt (groups ! 2))
            (parseInt (groups ! 3))
            (parseInt (groups ! 4))
            (parseInt (groups ! 5))
      | None \<Rightarrow> lastModified f)"

text \<open>The body of the loop over the folder's entries, for one entry.\<close>

definition loadRecordings_entry ::
  "(int \<Rightarrow> int) \<Rightarrow> recording_metadata list \<Rightarrow> entry \<Rightarrow> recording_metadata list" where
  "loadRecordings_entry tza recordingsList e =
     (if entry_kind e = KindFile \<and> endsWith (entry_name e) ''.webm'' then
        (case getFile e of
           Inr f \<Rightarrow>
             recordingsList @
               [\<lparr>filename = entry_name e,
                 timestamp = recording_timestamp tza (entry_name e) f,
                 size_bytes = file_size f,
                 fileHandle = e\<rparr>]
         | Inl err \<Rightarrow> recordingsList)
      else recordingsList)"

definition loadRecordings :: "env \<Rightarrow> app_state \<Rightarrow> app_state" where
  "loadRecordings env s =
     (case folderHandle s of
        None \<Rightarrow> s\<lparr>recordings := []\<rparr>
      | Some dir \<Rightarrow>
          (let s1 = s\<lparr>isLoadingRecordings := True, playbackError := None\<rparr>;
               recordingsList = foldl (loadRecordings_entry (LocalTZA env)) [] (dir_values dir);
               s2 = (case dir_values_rejects dir of
                       None \<Rightarrow>
                         s1\<lparr>recordings :=
                              array_sort (\<lambda>a b. timestamp b - timestamp a) recordingsList\<rparr>
                     | Some (JsError n m) \<Rightarrow>
                         s1\<lparr>playbackError :=
                              Some (if n = ''NotAllowedError''
                                    then ''Folder access was revoked. Please re-select the folder.''
                                    else ''Failed to load recordings: '' @ m),
                            recordings := []\<rparr>
                     | Some NotAnError \<Rightarrow> s1\<lparr>recordings := []\<rparr>)
           in s2\<lparr>isLoadingRecordings := False\<rparr>))"


subsection \<open>Source toggles\<close>

definition handleToggleMic :: "app_state \<Rightarrow> app_state" where
  "handleToggleMic s =
     (let newState = \<not> isMicEnabled s
      in s\<lparr>isMicEnabled := newState,
           localStorage := (localStorage s)(MIC_ENABLED_KEY \<mapsto> String_of_bool newState)\<rparr>)"

definition handleToggleCamera :: "app_state \<Rightarrow> app_state" where
  "handleToggleCamera s =
     (let newState = \<not> isCameraEnabled s
      in s\<lparr>isCameraEnabled := newState,
           localStorage := (localStorage s)(CAMERA_ENABLED_KEY \<mapsto> String_of_bool newState)\<rparr>)"

subsection \<open>Persistence\<close>

text \<open>
  A completed write through the folder handle creates the file or replaces its content.
  A write that rejects is not logged and leaves the folder of the model as it was (on
  the platform a rejection after \<^verbatim>\<open>getFileHandle\<close> can leave an empty file behind).
  The timeout that clears the success message five seconds after a save is a later event
  and not part of the handler's run.
\<close>

definition writeFile :: "directory \<Rightarrow> string \<Rightarrow> blob \<Rightarrow> time_value \<Rightarrow> directory" where
  "writeFile dir nm b mt =
     (let e = \<lparr>entry_kind = KindFile, entry_name = nm,
                getFile = Inr \<lparr>lastModified = mt, file_size = blob_size b\<rparr>\<rparr>
      in dir\<lparr>dir_values :=
               (if nm \<in> set (map entry_name (dir_values dir))
                then map (\<lambda>x. if entry_name x = nm then e else x) (dir_values dir)
                else dir_values dir @ [e])\<rparr>)"

definition saveRecording :: "env \<Rightarrow> blob \<Rightarrow> app_state \<Rightarrow> app_state" where
  "saveRecording env b s =
     (let filename = generateFilename (now env);
          fallback =
            s\<lparr>effects := effects s @ [Download filename b],
              saveSuccess := Some (''Recording downloaded: '' @ filename)\<rparr>
      in case folderHandle s of
           None \<Rightarrow> fallback
         | Some dir \<Rightarrow>
             (case folder_write_rejects env of
                None \<Rightarrow>
                  loadRecordings env
                    (s\<lparr>folderHandle := Some (writeFile dir filename b (written_lastModified env)),
                       effects := effects s @ [FolderWrite filename b],
                       saveSuccess := Some (''Recording saved: '' @ filename)\<rparr>)
              | Some err \<Rightarrow> fallback))"

subsection \<open>Capture session\<close>

text \<open>The video part of the track set: the screen stream's track, else the camera's.\<close>

definition startRecording_video ::
  "env \<Rightarrow> app_state \<Rightarrow> (thrown + (capture_source \<times> track) list) \<times> app_state" where
  "startRecording_video env s =
     (if isScreenEnabled s \<and> screenStream s \<noteq> None then
        (case getVideoTracks (the (screenStream s)) of
           [] \<Rightarrow> (Inr [], s)
         | screenVideoTrack # _ \<Rightarrow> (Inr [(Screen, screenVideoTrack)], s))
      else if isCameraEnabled s then
        (let deviceId = (if selectedCameraId s \<noteq> [] then Some (selectedCameraId s) else None);
             s1 = s\<lparr>effects := effects s @ [GetUserMedia Camera deviceId]\<rparr>
         in case getUserMedia_video env deviceId of
              Inl err \<Rightarrow> (Inl err, s1)
            | Inr cameraStream \<Rightarrow>
                (case getVideoTracks cameraStream of
                   [] \<Rightarrow> (Inr [], s1)
                 | cameraVideoTrack # _ \<Rightarrow> (Inr [(Camera, cameraVideoTrack)], s1)))
      else (Inr [], s))"

text \<open>The audio part, appended to the tracks chosen so far.\<close>

definition startRecording_audio ::
  "env \<Rightarrow> (capture_source \<times> track) list \<Rightarrow> app_state \<Rightarrow>
     (thrown + (capture_source \<times> track) list) \<times> app_state" where
  "startRecording_audio env tracks s =
     (if isMicEnabled s then
        (let deviceId = (if selectedMicId s \<noteq> [] then Some (selectedMicId s) else None);
             s1 = s\<lparr>effects := effects s @ [GetUserMedia Microphone deviceId]\<rparr>
         in case getUserMedia_audio env deviceId of
              Inl err \<Rightarrow> (Inl err, s1)
            | Inr audioStream \<Rightarrow>
                (case getAudioTracks audioStream of
                   [] \<Rightarrow> (Inr tracks, s1)
                 | audioTrack # _ \<Rightarrow> (Inr (tracks @ [(Microphone, audioTrack)]), s1)))
      else (Inr tracks, s))"

definition select_mimeType :: "env \<Rightarrow> string" where
  "select_mimeType env =
     (if isTypeSupported env ''video/webm;codecs=vp9'' then ''video/webm;codecs=vp9''
      else if isTypeSupported env ''video/webm;codecs=vp8'' then ''video/webm;codecs=vp8''
      else if isTypeSupported env ''video/webm'' then ''video/webm''
      else [])"

text \<open>
  The rest of the \<^verbatim>\<open>try\<close> block: the combined stream, the recorder with its handlers,
  the start with a one-second timeslice, and the duration timer.
\<close>

definition startRecording_recorder ::
  "env \<Rightarrow> (capture_source \<times> track) list \<Rightarrow> app_state \<Rightarrow> thrown option \<times> app_state" where
  "startRecording_recorder env tracks s =
     (let s1 = s\<lparr>mediaStreamRef := Some tracks,
                 effects := effects s @ [NewMediaStream tracks]\<rparr>;
          mimeType = select_mimeType env
      in case newMediaRecorder_throws env of
           Some err \<Rightarrow> (Some err, s1)
         | None \<Rightarrow>
             (let mediaRecorder =
                    \<lparr>rec_state = Inactive, rec_stream = tracks, rec_mimeType = mimeType,
                      rec_screenStream = screenStream s\<rparr>;
                  s2 = s1\<lparr>mediaRecorderRef := Some mediaRecorder,
                          effects := effects s1 @ [NewMediaRecorder tracks mimeType]\<rparr>
              in case start_throws env of
                   Some err \<Rightarrow> (Some err, s2)
                 | None \<Rightarrow>
                     (None,
                      s2\<lparr>mediaRecorderRef := Some (mediaRecorder\<lparr>rec_state := Recording\<rparr>),
                         isRecording := True,
                         recordingDuration := 0,
                         recordingTimerRef := Some (setInterval_id env),
                         intervals := intervals s2 @ [setInterval_id env]\<rparr>)))"

definition startRecording_catch :: "thrown \<Rightarrow> app_state \<Rightarrow> app_state" where
  "startRecording_catch err s =
     (case err of
        JsError n m \<Rightarrow>
          s\<lparr>recordingError :=
               Some (if n = ''NotAllowedError'' \<or> n = ''PermissionDeniedError''
                     then ''Permission denied. Please allow access to your microphone and camera.''
                     else if n = ''NotFoundError''
                     then ''Selected device not found. Please check your device settings.''
                     else if n = ''NotReadableError''
                     then ''Device is already in use by another application.''
                     else ''Failed to start recording: '' @ m)\<rparr>
      | NotAnError \<Rightarrow> s)"

definition handleStartRecording :: "env \<Rightarrow> app_state \<Rightarrow> app_state" where
  "handleStartRecording env s0 =
     (let s = s0\<lparr>recordingError := None, saveSuccess := None, recordedChunksRef := []\<rparr>;
          hasVideoSource = (isCameraEnabled s \<or> isScreenEnabled s);
          hasAudioSource = isMicEnabled s
      in if \<not> hasVideoSource \<and> \<not> hasAudioSource then
           s\<lparr>recordingError :=
               Some ''Please enable at least the microphone, camera, or screen recording.''\<rparr>
         else if isScreenEnabled s \<and> screenStream s = None then
           s\<lparr>recordingError :=
               Some ''Screen stream not available. Please re-enable screen recording.''\<rparr>
         else
           (case startRecording_video env s of
              (Inl err, s1) \<Rightarrow> startRecording_catch err s1
            | (Inr videoTracks, s1) \<Rightarrow>
                (case startRecording_audio env videoTracks s1 of
                   (Inl err, s2) \<Rightarrow> startRecording_catch err s2
                 | (Inr tracks, s2) \<Rightarrow>
                     (case startRecording_recorder env tracks s2 of
                        (Some err, s3) \<Rightarrow> startRecording_catch err s3
                      | (None, s3) \<Rightarrow> s3))))"

text \<open>The recorder's event handlers, as \<^verbatim>\<open>handleStartRecording\<close> installs them.\<close>

definition ondataavailable :: "blob \<Rightarrow> app_state \<Rightarrow> app_state" where
  "ondataavailable event_data s =
     (if 0 < blob_size event_data
      then s\<lparr>recordedChunksRef := recordedChunksRef s @ [event_data]\<rparr>
      else s)"

definition onstop :: "env \<Rightarrow> media_recorder \<Rightarrow> app_state \<Rightarrow> app_state" where
  "onstop env r s =
     (let s1 = (case recordingTimerRef s of
                  Some timer \<Rightarrow>
                    (if timer \<noteq> 0
                     then s\<lparr>intervals := removeAll timer (intervals s),
                            recordingTimerRef := None\<rparr>
                     else s)
                | None \<Rightarrow> s);
          s2 = (case mediaStreamRef s1 of
                  Some tracks \<Rightarrow>
                    s1\<lparr>effects := effects s1 @
                          map TrackStop
                            (filter (\<lambda>t. rec_screenStream r = None
                                          \<or> t \<notin> set (the (rec_screenStream r)))
                               (map snd tracks)),
                        mediaStreamRef := None\<rparr>
                | None \<Rightarrow> s1);
          s3 = (if recordedChunksRef s2 \<noteq> [] then
                  saveRecording env
                    (newBlob (recordedChunksRef s2)
                       (if rec_mimeType r \<noteq> [] then rec_mimeType r else ''video/webm''))
                    s2
                else s2)
      in s3\<lparr>recordedChunksRef := [], recordingDuration := 0\<rparr>)"

definition onerror :: "app_state \<Rightarrow> app_state" where
  "onerror s =
     s\<lparr>recordingError := Some ''Recording error occurred. Please try again.'',
       isRecording := False\<rparr>"


definition handleStopRecording :: "app_state \<Rightarrow> app_state" where
  "handleStopRecording s =
     (let s1 = (case mediaRecorderRef s of
                  Some r \<Rightarrow>
                    (if rec_state r \<noteq> Inactive
                     then s\<lparr>mediaRecorderRef := Some (r\<lparr>rec_state := Inactive\<rparr>),
                            effects := effects s @ [RecorderStop]\<rparr>
                     else s)
                | None \<Rightarrow> s)
      in s1\<lparr>isRecording := False\<rparr>)"

text \<open>
  After \<^verbatim>\<open>stop()\<close> the recorder delivers the data gathered since the last timeslice
  and then the stop event.
\<close>

definition recorder_stopped :: "env \<Rightarrow> app_state \<Rightarrow> app_state" where
  "recorder_stopped env s =
     (case mediaRecorderRef s of
        Some r \<Rightarrow> onstop env r (ondataavailable (final_data env) s)
      | None \<Rightarrow> s)"

text \<open>
  When the recorder cannot go on gathering data, the platform (W3C MediaStream
  Recording, the steps of \<^verbatim>\<open>start()\<close>) inactivates it and, in one task, fires the
  error event, then the data gathered so far, then the stop event; no timer callback
  runs in between. Only a recorder that is not inactive gathers data.
\<close>

definition recorder_failed :: "env \<Rightarrow> app_state \<Rightarrow> app_state" where
  "recorder_failed env s =
     (case mediaRecorderRef s of
        Some r \<Rightarrow>
          (if rec_state r \<noteq> Inactive
           then onstop env r
                  (ondataavailable (final_data env)
                     (onerror (s\<lparr>mediaRecorderRef := Some (r\<lparr>rec_state := Inactive\<rparr>)\<rparr>)))
           else s)
      | None \<Rightarrow> s)"

text \<open>
  The calls that persist an artifact: the completed write through the folder handle and
  the download.
\<close>

fun persists :: "effect \<Rightarrow> bool" where
  "persists (FolderWrite nm b) = True"
| "persists (Download nm b) = True"
| "persists other = False"

subsection \<open>Controls\<close>

text \<open>
  The buttons that reach the handlers above, with the conditions under which the
  component renders them and the value of their \<^verbatim>\<open>disabled\<close> attribute. A click
  calls the handler only on a button that is rendered and not disabled.
\<close>

datatype control =
  ToggleMicButton | ToggleCameraButton | StartRecordingButton | StopRecordingButton

fun rendered :: "control \<Rightarrow> app_state \<Rightarrow> bool" where
  "rendered ToggleMicButton s = (deviceError s = None)"
| "rendered ToggleCameraButton s = (deviceError s = None)"
| "rendered StartRecordingButton s = (\<not> isRecording s)"
| "rendered StopRecordingButton s = isRecording s"

fun disabled :: "control \<Rightarrow> app_state \<Rightarrow> bool" where
  "disabled ToggleMicButton s = isRecording s"
| "disabled ToggleCameraButton s = isRecording s"
| "disabled StartRecordingButton s =
     (folderHandle s = None
      \<or> (\<not> isMicEnabled s \<and> \<not> isCameraEnabled s
          \<and> \<not> (isScreenEnabled s \<and> screenStream s \<noteq> None)))"
| "disabled StopRecordingButton s = False"

fun onClick :: "control \<Rightarrow> env \<Rightarrow> app_state \<Rightarrow> app_state" where
  "onClick ToggleMicButton env s = handleToggleMic s"
| "onClick ToggleCameraButton env s = handleToggleCamera s"
| "onClick StartRecordingButton env s = handleStartRecording env s"
| "onClick StopRecordingButton env s = handleStopRecording s"

definition click :: "control \<Rightarrow> env \<Rightarrow> app_state \<Rightarrow> app_state" where
  "click c env s = (if rendered c s \<and> \<not> disabled c s then onClick c env s else s)"


subsection \<open>Concrete instances\<close>

text \<open>
  The component as it is first rendered with an empty local storage (microphone and
  camera enabled, screen disabled, nothing recorded), and a platform on which every
  device and the encoder work, in a time zone one hour ahead of UTC.
\<close>

definition initial_state :: app_state where
  "initial_state =
     \<lparr>folderHandle = None, deviceError = None, selectedMicId = [], selectedCameraId = [],
      isMicEnabled = True, isCameraEnabled = True, isScreenEnabled = False,
      screenStream = None, isRecording = False, recordingError = None,
      recordingDuration = 0, saveSuccess = None, recordings = [],
      isLoadingRecordings = False, playbackError = None, mediaRecorderRef = None,
      recordedChunksRef = [], mediaStreamRef = None, recordingTimerRef = None,
      localStorage = Map.empty, intervals = [], effects = []\<rparr>"

definition working_env :: env where
  "working_env =
     \<lparr>now = 1704450600000,
      LocalTZA = (\<lambda>_. 3600000),
      getUserMedia_video = (\<lambda>_. Inr [\<lparr>track_kind = Video, track_id = 1\<rparr>]),
      getUserMedia_audio = (\<lambda>_. Inr [\<lparr>track_kind = Audio, track_id = 2\<rparr>]),
      isTypeSupported = (\<lambda>_. True),
      newMediaRecorder_throws = None,
      start_throws = None,
      setInterval_id = 1,
      folder_write_rejects = None,
      written_lastModified = 1704450600000,
      final_data = \<lparr>blob_bytes = [1, 2, 3], blob_type = ''video/webm;codecs=vp9''\<rparr>\<rparr>"

definition empty_folder :: directory where
  "empty_folder = \<lparr>dir_values = [], dir_values_rejects = None\<rparr>"

definition two_recordings_folder :: directory where
  "two_recordings_folder =
     \<lparr>dir_values =
        [\<lparr>entry_kind = KindFile, entry_name = ''recording-2024-01-05-10-30-00.webm'',
          getFile = Inr \<lparr>lastModified = 7, file_size = 10\<rparr>\<rparr>,
         \<lparr>entry_kind = KindFile, entry_name = ''recording-2024-03-01-09-00-00.webm'',
          getFile = Inr \<lparr>lastModified = 3, file_size = 20\<rparr>\<rparr>],
      dir_values_rejects = None\<rparr>"

definition renamed_file_folder :: directory where
  "renamed_file_folder =
     \<lparr>dir_values =
        [\<lparr>entry_kind = KindFile, entry_name = ''holiday.webm'',
          getFile = Inr \<lparr>lastModified = 1709283600000, file_size = 42\<rparr>\<rparr>],
      dir_values_rejects = None\<rparr>"

text \<open>A session started from the first render, with a folder selected.\<close>

definition recording_state :: app_state where
  "recording_state =
     handleStartRecording working_env (initial_state\<lparr>folderHandle := Some empty_folder\<rparr>)"

text \<open>The first render with a folder selected and the screen shared, camera still enabled.\<close>

definition screen_sharing_state :: app_state where
  "screen_sharing_state =
     initial_state\<lparr>folderHandle := Some empty_folder, isScreenEnabled := True,
       screenStream := Some [\<lparr>track_kind = Video, track_id = 9\<rparr>]\<rparr>"

section \<open>Properties\<close>

subsection \<open>Years and days\<close>

lemma div_step:
  fixes y k :: int
  assumes "0 < k"
  shows "y div k - (y - 1) div k = (if y mod k = 0 then 1 else 0)"
proof -
  define q r where "q = y div k" and "r = y mod k"
  have y: "y = k * q + r" and r: "0 \<le> r" "r < k"
    using assms by (simp_all add: q_def r_def)
  show ?thesis
  proof (cases "r = 0")
    case True
    have "(y - 1) div k = q - 1"
      by (rule int_div_pos_eq [where r = "k - 1"])
        (use y True assms in \<open>simp_all add: algebra_simps\<close>)
    then show ?thesis using True by (simp add: q_def r_def)
  next
    case False
    have "(y - 1) div k = q"
      by (rule int_div_pos_eq [where r = "r - 1"])
        (use y False r in \<open>simp_all add: algebra_simps\<close>)
    then show ?thesis using False by (simp add: q_def r_def)
  qed
qed

lemma div_bounds:
  fixes x k :: int
  assumes "0 < k"
  shows "k * (x div k) \<le> x" and "x < k * (x div k) + k"
proof -
  have "x = k * (x div k) + x mod k" by simp
  moreover have "0 \<le> x mod k" "x mod k < k" using assms by simp_all
  ultimately show "k * (x div k) \<le> x" and "x < k * (x div k) + k" by linarith+
qed

lemma DayFromYear_alt:
  "DayFromYear y = 365 * (y - 1970) + (y - 1) div 4 - (y - 1) div 100 + (y - 1) div 400 - 477"
proof -
  have "(y - 1969) div 4 = (y - 1) div 4 - 492" by linarith
  moreover have "(y - 1901) div 100 = (y - 1) div 100 - 19" by linarith
  moreover have "(y - 1601) div 400 = (y - 1) div 400 - 4" by linarith
  ultimately show ?thesis unfolding DayFromYear_def by linarith
qed

text \<open>A year is as long as \<open>DaysInYear\<close> says.\<close>

lemma DayFromYear_step: "DayFromYear (y + 1) = DayFromYear y + DaysInYear y"
proof -
  have a: "y div 4 = (y - 1) div 4 + (if y mod 4 = 0 then 1 else 0)"
    using div_step [of 4 y] by simp
  have b: "y div 100 = (y - 1) div 100 + (if y mod 100 = 0 then 1 else 0)"
    using div_step [of 100 y] by simp
  have c: "y div 400 = (y - 1) div 400 + (if y mod 400 = 0 then 1 else 0)"
    using div_step [of 400 y] by simp
  have d: "y mod 4 = 0" if "y mod 100 = 0"
    using that mod_mod_cancel [of 4 100 y] by simp
  have e: "y mod 100 = 0" if "y mod 400 = 0"
    using that mod_mod_cancel [of 100 400 y] by simp
  show ?thesis
    unfolding DayFromYear_alt DaysInYear_def using d e
    by (simp add: a b c)
qed

lemma DayFromYear_lin:
  "146097 * y - 287811596 \<le> 400 * DayFromYear y"
  "400 * DayFromYear y \<le> 146097 * y - 287810501"
proof -
  define a b c where "a = (y - 1) div 4" and "b = (y - 1) div 100" and "c = (y - 1) div 400"
  have D: "400 * DayFromYear y = 146000 * y + 400 * a - 400 * b + 400 * c - 287810800"
    unfolding DayFromYear_alt a_def b_def c_def by simp
  have a: "4 * a \<le> y - 1" "y - 1 < 4 * a + 4"
    unfolding a_def using div_bounds [of 4 "y - 1"] by simp_all
  have b: "100 * b \<le> y - 1" "y - 1 < 100 * b + 100"
    unfolding b_def using div_bounds [of 100 "y - 1"] by simp_all
  have c: "400 * c \<le> y - 1" "y - 1 < 400 * c + 400"
    unfolding c_def using div_bounds [of 400 "y - 1"] by simp_all
  show "146097 * y - 287811596 \<le> 400 * DayFromYear y"
    unfolding D using a b c by linarith
  show "400 * DayFromYear y \<le> 146097 * y - 287810501"
    unfolding D using a b c by linarith
qed

lemma YearFromDay_estimate:
  fixes d :: int
  defines "y \<equiv> 1970 + (d * 10000) div 3652425"
  shows "DayFromYear (y - 1) \<le> d" and "d < DayFromYear (y + 2)"
proof -
  define q where "q = (d * 10000) div 3652425"
  have q: "3652425 * q \<le> d * 10000" "d * 10000 < 3652425 * q + 3652425"
    unfolding q_def using div_bounds [of 3652425 "d * 10000"] by simp_all
  define y1 y2 where "y1 = y - 1" and "y2 = y + 2"
  have y: "y1 = 1969 + q" "y2 = 1972 + q"
    by (simp_all add: y_def q_def y1_def y2_def)
  have "DayFromYear y1 \<le> d"
    using DayFromYear_lin(2) [of y1] q y by linarith
  moreover have "d < DayFromYear y2"
    using DayFromYear_lin(1) [of y2] q y by linarith
  ultimately show "DayFromYear (y - 1) \<le> d" and "d < DayFromYear (y + 2)"
    by (simp_all add: y1_def y2_def)
qed

text \<open>The computed year is the one whose days include \<open>d\<close>.\<close>

lemma YearFromDay_bounds:
  "DayFromYear (YearFromDay d) \<le> d" "d < DayFromYear (YearFromDay d + 1)"
  using YearFromDay_estimate [of d]
  by (auto simp: YearFromDay_def Let_def)

subsection \<open>Decimal strings\<close>

lemma digit_char_cases:
  assumes "d < 10"
  shows "is_digit (digit_char d) \<and> digit_val (digit_char d) = int d
         \<and> digit_char d \<noteq> CHR '':'' \<and> digit_char d \<noteq> CHR ''.'' \<and> digit_char d \<noteq> CHR ''T''"
proof -
  from assms have "d \<in> {0, 1, 2, 3, 4, 5, 6, 7, 8, 9}" by auto
  then show ?thesis
    by (auto simp: digit_char_def is_digit_def digit_val_def)
qed

lemma digit_char_mod [simp]: "digit_char (n mod 10) = digit_char n"
  by (simp add: digit_char_def)

lemma decimal_1: "n < 10 \<Longrightarrow> decimal n = [digit_char n]"
  by (simp add: decimal.simps)

lemma decimal_2: "10 \<le> n \<Longrightarrow> n < 100 \<Longrightarrow> decimal n = [digit_char (n div 10), digit_char n]"
  by (subst decimal.simps) (simp add: decimal_1)

lemma decimal_3:
  "100 \<le> n \<Longrightarrow> n < 1000 \<Longrightarrow> decimal n = [digit_char (n div 100), digit_char (n div 10), digit_char n]"
  by (subst decimal.simps) (simp add: decimal_2 div_mult2_eq [symmetric])

lemma decimal_4:
  "1000 \<le> n \<Longrightarrow> n < 10000 \<Longrightarrow>
   decimal n = [digit_char (n div 1000), digit_char (n div 100), digit_char (n div 10), digit_char n]"
  by (subst decimal.simps) (simp add: decimal_3 div_mult2_eq [symmetric])

lemma replicate_small:
  "replicate 1 c = [c]" "replicate 2 c = [c, c]" "replicate 3 c = [c, c, c]"
  by (simp_all add: numeral_2_eq_2 numeral_3_eq_3)

lemma pad2: "n < 100 \<Longrightarrow> ToZeroPaddedDecimalString n 2 = [digit_char (n div 10), digit_char n]"
  by (cases "n < 10") (simp_all add: ToZeroPaddedDecimalString_def decimal_1 decimal_2 digit_char_def replicate_small)

lemma pad3:
  "n < 1000 \<Longrightarrow> ToZeroPaddedDecimalString n 3 = [digit_char (n div 100), digit_char (n div 10), digit_char n]"
proof -
  assume n: "n < 1000"
  consider "n < 10" | "10 \<le> n" "n < 100" | "100 \<le> n" by linarith
  then show ?thesis
    using n by cases (simp_all add: ToZeroPaddedDecimalString_def decimal_1 decimal_2 decimal_3 digit_char_def replicate_small)
qed

lemma pad4:
  "n < 10000 \<Longrightarrow> ToZeroPaddedDecimalString n 4 =
     [digit_char (n div 1000), digit_char (n div 100), digit_char (n div 10), digit_char n]"
proof -
  assume n: "n < 10000"
  consider "n < 10" | "10 \<le> n" "n < 100" | "100 \<le> n" "n < 1000" | "1000 \<le> n" by linarith
  then show ?thesis
    using n by cases
      (simp_all add: ToZeroPaddedDecimalString_def decimal_1 decimal_2 decimal_3 decimal_4 digit_char_def replicate_small)
qed

subsection \<open>Date fields\<close>

lemma DaysInYear_cases: "DaysInYear y = 365 \<or> DaysInYear y = 366"
  by (simp add: DaysInYear_def)

lemma DayFromYear_mono: "y \<le> y' \<Longrightarrow> DayFromYear y \<le> DayFromYear y'"
proof (induction y' rule: int_ge_induct)
  case base
  show ?case by simp
next
  case (step i)
  then show ?case
    using DayFromYear_step [of i] DaysInYear_cases [of i] by linarith
qed

lemma YearFromDay_largest: "DayFromYear y \<le> d \<Longrightarrow> y \<le> YearFromDay d"
proof (rule ccontr)
  assume a: "DayFromYear y \<le> d" and "\<not> y \<le> YearFromDay d"
  then have "YearFromDay d + 1 \<le> y" by simp
  then have "DayFromYear (YearFromDay d + 1) \<le> DayFromYear y" by (rule DayFromYear_mono)
  with a YearFromDay_bounds(2) [of d] show False by linarith
qed

lemma DayWithinYear_bounds:
  "0 \<le> DayWithinYear t" "DayWithinYear t < DaysInYear (YearFromTime t)"
  using YearFromDay_bounds [of "Day t"] DayFromYear_step [of "YearFromTime t"]
  by (simp_all add: DayWithinYear_def YearFromTime_def)

lemma MonthFromTime_bounds: "0 \<le> MonthFromTime t" "MonthFromTime t \<le> 11"
  by (simp_all add: MonthFromTime_def Let_def)

lemma MonthStart_numeral:
  "MonthStart l 0 = 0" "MonthStart l 1 = 31"
  "MonthStart l 2 = 59 + (if l then 1 else 0)" "MonthStart l 3 = 90 + (if l then 1 else 0)"
  "MonthStart l 4 = 120 + (if l then 1 else 0)" "MonthStart l 5 = 151 + (if l then 1 else 0)"
  "MonthStart l 6 = 181 + (if l then 1 else 0)" "MonthStart l 7 = 212 + (if l then 1 else 0)"
  "MonthStart l 8 = 243 + (if l then 1 else 0)" "MonthStart l 9 = 273 + (if l then 1 else 0)"
  "MonthStart l 10 = 304 + (if l then 1 else 0)" "MonthStart l 11 = 334 + (if l then 1 else 0)"
  by (simp_all add: MonthStart_def)

lemma DateFromTime_bounds: "1 \<le> DateFromTime t" "DateFromTime t \<le> 31"
proof -
  define d where "d = DayWithinYear t"
  have b: "0 \<le> d" "d < (if InLeapYear t then 366 else 365)"
    using DayWithinYear_bounds [of t] DaysInYear_cases [of "YearFromTime t"]
    by (auto simp: InLeapYear_def d_def)
  have "1 \<le> DateFromTime t \<and> DateFromTime t \<le> 31"
  proof (cases "InLeapYear t")
    case True
    with b show ?thesis
      unfolding DateFromTime_def MonthFromTime_def Let_def d_def [symmetric]
      by (simp add: MonthStart_numeral)
  next
    case False
    with b show ?thesis
      unfolding DateFromTime_def MonthFromTime_def Let_def d_def [symmetric]
      by (simp add: MonthStart_numeral)
  qed
  then show "1 \<le> DateFromTime t" "DateFromTime t \<le> 31" by simp_all
qed

lemma time_field_bounds:
  "0 \<le> HourFromTime t" "HourFromTime t < 24"
  "0 \<le> MinFromTime t" "MinFromTime t < 60"
  "0 \<le> SecFromTime t" "SecFromTime t < 60"
  "0 \<le> msFromTime t" "msFromTime t < 1000"
  by (simp_all add: HourFromTime_def MinFromTime_def SecFromTime_def msFromTime_def msPerSecond_def)

lemma YearFromDay_ge_iff: "y \<le> YearFromDay d \<longleftrightarrow> DayFromYear y \<le> d"
proof
  assume "y \<le> YearFromDay d"
  then have "DayFromYear y \<le> DayFromYear (YearFromDay d)" by (rule DayFromYear_mono)
  with YearFromDay_bounds(1) [of d] show "DayFromYear y \<le> d" by linarith
next
  assume "DayFromYear y \<le> d"
  then show "y \<le> YearFromDay d" by (rule YearFromDay_largest)
qed

text \<open>The time values whose year has four digits.\<close>

lemma YearFromTime_four_digits:
  "0 \<le> YearFromTime t \<and> YearFromTime t \<le> 9999
   \<longleftrightarrow> - 62167219200000 \<le> t \<and> t < 253402300800000"
proof -
  have a: "0 \<le> YearFromTime t \<longleftrightarrow> - 719528 \<le> Day t"
    unfolding YearFromTime_def YearFromDay_ge_iff by (simp add: DayFromYear_def)
  have "YearFromTime t \<le> 9999 \<longleftrightarrow> \<not> 10000 \<le> YearFromTime t" by linarith
  also have "\<dots> \<longleftrightarrow> \<not> 2932897 \<le> Day t"
    unfolding YearFromTime_def YearFromDay_ge_iff by (simp add: DayFromYear_def)
  finally have b: "YearFromTime t \<le> 9999 \<longleftrightarrow> Day t < 2932897" by linarith
  have c: "- 719528 \<le> Day t \<longleftrightarrow> - 62167219200000 \<le> t"
    unfolding Day_def msPerDay_def by linarith
  have d: "Day t < 2932897 \<longleftrightarrow> t < 253402300800000"
    unfolding Day_def msPerDay_def by linarith
  show ?thesis
    unfolding a b c d ..
qed

subsection \<open>The generated filename\<close>

lemma digit_char_props:
  "is_digit (digit_char n)"
  "digit_val (digit_char n) = int (n mod 10)"
  "digit_char n \<noteq> CHR '':''" "digit_char n \<noteq> CHR ''.''" "digit_char n \<noteq> CHR ''T''"
  using digit_char_cases [of "n mod 10"] by simp_all

text \<open>The ISO string of a time value whose year has four digits.\<close>

lemma toISOString_four_digit_year:
  assumes "0 \<le> YearFromTime t" "YearFromTime t \<le> 9999"
  defines "Y \<equiv> nat (YearFromTime t)" and "M \<equiv> nat (MonthFromTime t + 1)"
    and "D \<equiv> nat (DateFromTime t)" and "h \<equiv> nat (HourFromTime t)"
    and "m \<equiv> nat (MinFromTime t)" and "s \<equiv> nat (SecFromTime t)"
    and "ms \<equiv> nat (msFromTime t)"
  shows "toISOString t =
    [digit_char (Y div 1000), digit_char (Y div 100), digit_char (Y div 10), digit_char Y,
     CHR ''-'', digit_char (M div 10), digit_char M,
     CHR ''-'', digit_char (D div 10), digit_char D,
     CHR ''T'', digit_char (h div 10), digit_char h,
     CHR '':'', digit_char (m div 10), digit_char m,
     CHR '':'', digit_char (s div 10), digit_char s,
     CHR ''.'', digit_char (ms div 100), digit_char (ms div 10), digit_char ms,
     CHR ''Z'']"
proof -
  have "Y < 10000" using assms by (simp add: Y_def)
  moreover have "M < 100" using MonthFromTime_bounds [of t] by (simp add: M_def)
  moreover have "D < 100" using DateFromTime_bounds [of t] by (simp add: D_def)
  moreover have "h < 100" "m < 100" "s < 100" "ms < 1000"
    using time_field_bounds [of t] by (simp_all add: h_def m_def s_def ms_def)
  ultimately show ?thesis
    using assms(1,2)
    by (simp add: toISOString_def Let_def pad2 pad3 pad4
        Y_def [symmetric] M_def [symmetric] D_def [symmetric] h_def [symmetric]
        m_def [symmetric] s_def [symmetric] ms_def [symmetric])
qed

lemma generateFilename_four_digit_year:
  assumes "0 \<le> YearFromTime t" "YearFromTime t \<le> 9999"
  defines "Y \<equiv> nat (YearFromTime t)" and "M \<equiv> nat (MonthFromTime t + 1)"
    and "D \<equiv> nat (DateFromTime t)" and "h \<equiv> nat (HourFromTime t)"
    and "m \<equiv> nat (MinFromTime t)" and "s \<equiv> nat (SecFromTime t)"
  shows "generateFilename t =
    ''recording-'' @
    [digit_char (Y div 1000), digit_char (Y div 100), digit_char (Y div 10), digit_char Y,
     CHR ''-'', digit_char (M div 10), digit_char M,
     CHR ''-'', digit_char (D div 10), digit_char D,
     CHR ''-'', digit_char (h div 10), digit_char h,
     CHR ''-'', digit_char (m div 10), digit_char m,
     CHR ''-'', digit_char (s div 10), digit_char s] @ ''.webm''"
  unfolding generateFilename_def Let_def toISOString_four_digit_year [OF assms(1,2)]
    replace_colon_dot_def slice0_def
  by (simp add: digit_char_props Y_def M_def D_def h_def m_def s_def)

lemma parseInt_2: "n < 100 \<Longrightarrow> parseInt [digit_char (n div 10), digit_char n] = int n"
  by (simp add: parseInt_def digit_char_props zmod_int zdiv_int) 

lemma parseInt_4:
  "n < 10000 \<Longrightarrow>
   parseInt [digit_char (n div 1000), digit_char (n div 100), digit_char (n div 10), digit_char n] = int n"
proof -
  assume n: "n < 10000"
  have a: "n div 1000 mod 10 = n div 1000" using n by simp
  have b: "n div 100 = 10 * (n div 1000) + n div 100 mod 10"
    using div_mult2_eq [of n 100 10] by simp
  have c: "n div 10 = 10 * (n div 100) + n div 10 mod 10"
    using div_mult2_eq [of n 10 10] by simp
  have d: "n = 10 * (n div 10) + n mod 10" by simp
  have e: "1000 * (n div 1000) + 100 * (n div 100 mod 10) + 10 * (n div 10 mod 10) + n mod 10 = n"
    using b c d by linarith
  have "int (1000 * (n div 1000) + 100 * (n div 100 mod 10) + 10 * (n div 10 mod 10) + n mod 10) = int n"
    using e by (rule arg_cong)
  then have "1000 * int (n div 1000) + 100 * int (n div 100 mod 10) + 10 * int (n div 10 mod 10)
      + int (n mod 10) = int n"
    by (simp only: of_nat_add of_nat_mult of_nat_numeral)
  then show ?thesis
    using a by (simp add: parseInt_def digit_char_props)
qed

lemma match_generateFilename:
  assumes "0 \<le> YearFromTime t" "YearFromTime t \<le> 9999"
  defines "Y \<equiv> nat (YearFromTime t)" and "M \<equiv> nat (MonthFromTime t + 1)"
    and "D \<equiv> nat (DateFromTime t)" and "h \<equiv> nat (HourFromTime t)"
    and "m \<equiv> nat (MinFromTime t)" and "s \<equiv> nat (SecFromTime t)"
  shows "match_anywhere recording_pattern (generateFilename t) =
    Some [[digit_char (Y div 1000), digit_char (Y div 100), digit_char (Y div 10), digit_char Y],
          [digit_char (M div 10), digit_char M],
          [digit_char (D div 10), digit_char D],
          [digit_char (h div 10), digit_char h],
          [digit_char (m div 10), digit_char m],
          [digit_char (s div 10), digit_char s]]"
  unfolding generateFilename_four_digit_year [OF assms(1,2)] recording_pattern_def
  by (simp add: digit_char_props Y_def M_def D_def h_def m_def s_def Let_def)

subsection \<open>The catalog reads generated names\<close>

lemma recording_timestamp_generateFilename:
  assumes "0 \<le> YearFromTime t" "YearFromTime t \<le> 9999"
  shows "recording_timestamp tza (generateFilename t) f =
    newDate6 tza (YearFromTime t) (MonthFromTime t) (DateFromTime t)
      (HourFromTime t) (MinFromTime t) (SecFromTime t)"
proof -
  have "nat (YearFromTime t) < 10000" using assms by simp
  moreover have "nat (MonthFromTime t + 1) < 100" "0 \<le> MonthFromTime t + 1"
    using MonthFromTime_bounds [of t] by simp_all
  moreover have "nat (DateFromTime t) < 100" "0 \<le> DateFromTime t"
    using DateFromTime_bounds [of t] by simp_all
  moreover have "nat (HourFromTime t) < 100" "nat (MinFromTime t) < 100" "nat (SecFromTime t) < 100"
    using time_field_bounds [of t] by simp_all
  ultimately show ?thesis
    using assms(1) time_field_bounds [of t]
    by (simp add: recording_timestamp_def match_generateFilename [OF assms] parseInt_2 parseInt_4)
qed

lemma endsWith_generateFilename: "endsWith (generateFilename t) ''.webm''"
  by (simp add: endsWith_def generateFilename_def)

lemma fields_10000:
  "YearFromTime 253402300800000 = 10000" "MonthFromTime 253402300800000 = 0"
  "DateFromTime 253402300800000 = 1" "HourFromTime 253402300800000 = 0"
  "MinFromTime 253402300800000 = 0" "SecFromTime 253402300800000 = 0"
  "msFromTime 253402300800000 = 0"
proof -
  show y: "YearFromTime 253402300800000 = 10000"
    by (simp add: YearFromTime_def YearFromDay_def Day_def DayFromYear_def msPerDay_def)
  have d: "DayWithinYear 253402300800000 = 0"
    by (simp add: DayWithinYear_def y) (simp add: Day_def DayFromYear_def msPerDay_def)
  show m: "MonthFromTime 253402300800000 = 0"
    by (simp add: MonthFromTime_def d MonthStart_numeral)
  show "DateFromTime 253402300800000 = 1"
    by (simp add: DateFromTime_def d m MonthStart_numeral)
  show "HourFromTime 253402300800000 = 0" "MinFromTime 253402300800000 = 0"
    "SecFromTime 253402300800000 = 0" "msFromTime 253402300800000 = 0"
    by (simp_all add: HourFromTime_def MinFromTime_def SecFromTime_def msFromTime_def
        msPerHour_def msPerMinute_def msPerSecond_def)
qed

lemma decimal_10000: "decimal 10000 = ''10000''"
  by (simp add: decimal.simps digit_char_def)

lemma generateFilename_10000: "generateFilename 253402300800000 = ''recording-+010000-01-01-00-00.webm''"
  by (simp add: generateFilename_def toISOString_def fields_10000 ToZeroPaddedDecimalString_def
      decimal_10000 decimal_1 digit_char_def replicate_small replace_colon_dot_def slice0_def)

text \<open>
  C10 (as amended). For every wall-clock time from 0000-01-01T00:00:00Z up to
  9999-12-31T23:59:59.999Z, the name that \<open>generateFilename\<close> produces ends with
  \<open>.webm\<close> and matches the catalog's pattern, and the catalog derives the artifact's
  timestamp from the numeric groups of the name (the UTC fields of the wall-clock time,
  read as local time), whatever the modification time of the file is.
\<close>

theorem generateFilename_matches_pattern:
  assumes "- 62167219200000 \<le> t" "t < 253402300800000"
  shows "endsWith (generateFilename t) ''.webm''
       \<and> match_anywhere recording_pattern (generateFilename t) \<noteq> None
       \<and> recording_timestamp tza (generateFilename t) f =
           newDate6 tza (YearFromTime t) (MonthFromTime t) (DateFromTime t)
             (HourFromTime t) (MinFromTime t) (SecFromTime t)"
proof -
  have y: "0 \<le> YearFromTime t" "YearFromTime t \<le> 9999"
    using assms YearFromTime_four_digits [of t] by simp_all
  then show ?thesis
    by (simp add: endsWith_generateFilename match_generateFilename
        recording_timestamp_generateFilename)
qed

theorem generateFilename_matches_pattern_witness:
  "- 62167219200000 \<le> (1704450600123 :: int) \<and> (1704450600123 :: int) < 253402300800000
   \<and> endsWith (generateFilename 1704450600123) ''.webm''
   \<and> match_anywhere recording_pattern (generateFilename 1704450600123) \<noteq> None
   \<and> recording_timestamp (\<lambda>_. 0) (generateFilename 1704450600123)
         \<lparr>lastModified = 5, file_size = 1\<rparr> =
       newDate6 (\<lambda>_. 0) (YearFromTime 1704450600123) (MonthFromTime 1704450600123)
         (DateFromTime 1704450600123) (HourFromTime 1704450600123)
         (MinFromTime 1704450600123) (SecFromTime 1704450600123)"
proof -
  have h1: "- 62167219200000 \<le> (1704450600123 :: int)"
    and h2: "(1704450600123 :: int) < 253402300800000"
    by simp_all
  show ?thesis
    using generateFilename_matches_pattern [OF h1 h2, of "\<lambda>_. 0" "\<lparr>lastModified = 5, file_size = 1\<rparr>"]
    by simp
qed

text \<open>
  At 10000-01-01T00:00:00Z the ISO string starts with a sign and a six-digit year, the
  first nineteen characters end inside the minutes, and the name does not match: the
  catalog falls back to the modification time.
\<close>

theorem generateFilename_year_10000_counterexample:
  "YearFromTime 253402300800000 = 10000
   \<and> generateFilename 253402300800000 = ''recording-+010000-01-01-00-00.webm''
   \<and> match_anywhere recording_pattern (generateFilename 253402300800000) = None
   \<and> recording_timestamp (\<lambda>_. 0) (generateFilename 253402300800000)
         \<lparr>lastModified = 5, file_size = 1\<rparr> = 5"
proof -
  have "match_anywhere recording_pattern ''recording-+010000-01-01-00-00.webm'' = None"
    by (simp add: recording_pattern_def is_digit_def)
  then show ?thesis
    by (simp add: generateFilename_10000 recording_timestamp_def fields_10000)
qed

subsection \<open>Reading the generated name back\<close>

lemma MakeDay_fields: "MakeDay (YearFromTime t) (MonthFromTime t) (DateFromTime t) = Day t"
proof -
  have m: "MonthFromTime t div 12 = 0" "MonthFromTime t mod 12 = MonthFromTime t"
    using MonthFromTime_bounds [of t] by simp_all
  show ?thesis
    by (simp add: MakeDay_def m DateFromTime_def InLeapYear_def DayWithinYear_def)
qed

lemma MakeTime_fields:
  "MakeTime (HourFromTime t) (MinFromTime t) (SecFromTime t) 0 = TimeWithinDay t - msFromTime t"
proof -
  define a where "a = t div 1000"
  have t: "t = 1000 * a + t mod 1000" by (simp add: a_def)
  have m: "t div 60000 = a div 60"
    using zdiv_zmult2_eq [of 1000 t 60] by (simp add: a_def)
  have h: "t div 3600000 = a div 3600"
    using zdiv_zmult2_eq [of 1000 t 3600] by (simp add: a_def)
  have d: "t mod 86400000 = 1000 * (a mod 86400) + t mod 1000"
    using zmod_zmult2_eq [of 86400 t 1000] by (simp add: a_def)
  have a1: "a mod 86400 = 3600 * (a div 3600 mod 24) + a mod 3600"
    using zmod_zmult2_eq [of 24 a 3600] by simp
  have a2: "a mod 3600 = 60 * (a div 60 mod 60) + a mod 60"
    using zmod_zmult2_eq [of 60 a 60] by simp
  show ?thesis
    unfolding MakeTime_def HourFromTime_def MinFromTime_def SecFromTime_def TimeWithinDay_def
      msFromTime_def msPerHour_def msPerMinute_def msPerSecond_def msPerDay_def m h d
    using a1 a2 by (simp add: a_def [symmetric])
qed

text \<open>
  Reading the name back: the catalog recovers the wall-clock time to the second, moved by
  the local time zone offset, because the name is written in UTC and read as local time.
\<close>

lemma recording_timestamp_roundtrip:
  assumes "100 \<le> YearFromTime t" "YearFromTime t \<le> 9999"
  shows "recording_timestamp tza (generateFilename t) f = UTC tza (t - msFromTime t)"
proof -
  have y: "0 \<le> YearFromTime t" using assms by simp
  have "MakeDate (Day t) (TimeWithinDay t - msFromTime t) = t - msFromTime t"
    by (simp add: MakeDate_def Day_def TimeWithinDay_def)
  then show ?thesis
    using assms(1)
    by (simp add: recording_timestamp_generateFilename [OF y assms(2)] newDate6_def
        MakeDay_fields MakeTime_fields)
qed

lemma fields_2024:
  "YearFromTime 1704450600000 = 2024" "MonthFromTime 1704450600000 = 0"
  "DateFromTime 1704450600000 = 5" "HourFromTime 1704450600000 = 10"
  "MinFromTime 1704450600000 = 30" "SecFromTime 1704450600000 = 0"
  "msFromTime 1704450600000 = 0"
proof -
  show y: "YearFromTime 1704450600000 = 2024"
    by (simp add: YearFromTime_def YearFromDay_def Day_def DayFromYear_def msPerDay_def)
  have d: "DayWithinYear 1704450600000 = 4"
    by (simp add: DayWithinYear_def y) (simp add: Day_def DayFromYear_def msPerDay_def)
  show m: "MonthFromTime 1704450600000 = 0"
    by (simp add: MonthFromTime_def d MonthStart_numeral)
  show "DateFromTime 1704450600000 = 5"
    by (simp add: DateFromTime_def d m MonthStart_numeral)
  show "HourFromTime 1704450600000 = 10" "MinFromTime 1704450600000 = 30"
    "SecFromTime 1704450600000 = 0" "msFromTime 1704450600000 = 0"
    by (simp_all add: HourFromTime_def MinFromTime_def SecFromTime_def msFromTime_def
        msPerHour_def msPerMinute_def msPerSecond_def)
qed

lemma generateFilename_2024:
  "generateFilename 1704450600000 = ''recording-2024-01-05-10-30-00.webm''"
  by (simp add: generateFilename_four_digit_year fields_2024 digit_char_def)

subsection \<open>Sorting the catalog\<close>

lemma set_insert_sorted: "set (insert_sorted cmp x xs) = insert x (set xs)"
  by (induction xs) auto

lemma set_array_sort: "set (array_sort cmp xs) = set xs"
  by (induction xs) (simp_all add: array_sort_def set_insert_sorted)

lemma sorted_insert_sorted:
  "sorted_wrt (\<lambda>a b. timestamp b \<le> timestamp a) xs \<Longrightarrow>
   sorted_wrt (\<lambda>a b. timestamp b \<le> timestamp a)
     (insert_sorted (\<lambda>a b. timestamp b - timestamp a) x xs)"
proof (induction xs)
  case Nil
  show ?case by simp
next
  case (Cons y ys)
  show ?case
  proof (cases "timestamp y - timestamp x \<le> 0")
    case True
    with Cons.prems show ?thesis by auto
  next
    case False
    with Cons show ?thesis by (auto simp: set_insert_sorted)
  qed
qed

lemma sorted_array_sort:
  "sorted_wrt (\<lambda>a b. timestamp b \<le> timestamp a)
     (array_sort (\<lambda>a b. timestamp b - timestamp a) xs)"
  by (induction xs) (simp_all add: array_sort_def sorted_insert_sorted)

lemma recordings_loadRecordings_sorted:
  "sorted_wrt (\<lambda>a b. timestamp b \<le> timestamp a) (recordings (loadRecordings env s))"
  by (simp add: loadRecordings_def Let_def sorted_array_sort
      split: option.split thrown.split)

lemma timestamp_jan:
  "recording_timestamp tza ''recording-2024-01-05-10-30-00.webm'' f
   = 1704450600000 - tza 1704450600000"
  by (simp add: Let_def recording_timestamp_def recording_pattern_def is_digit_def parseInt_def
      digit_val_def newDate6_def UTC_def MakeDate_def MakeDay_def MakeTime_def DayFromYear_def
      DaysInYear_def MonthStart_numeral msPerDay_def msPerHour_def msPerMinute_def
      msPerSecond_def)

lemma timestamp_mar:
  "recording_timestamp tza ''recording-2024-03-01-09-00-00.webm'' f
   = 1709283600000 - tza 1709283600000"
  by (simp add: Let_def recording_timestamp_def recording_pattern_def is_digit_def parseInt_def
      digit_val_def newDate6_def UTC_def MakeDate_def MakeDay_def MakeTime_def DayFromYear_def
      DaysInYear_def MonthStart_numeral msPerDay_def msPerHour_def msPerMinute_def
      msPerSecond_def)

lemma loadRecordings_two_files:
  assumes tz: "\<forall>t. \<bar>LocalTZA env t\<bar> \<le> msPerDay"
    and s: "folderHandle s = Some dir" "dir_values_rejects dir = None"
    and d: "dir_values dir =
          [\<lparr>entry_kind = KindFile, entry_name = ''recording-2024-01-05-10-30-00.webm'',
            getFile = Inr f1\<rparr>,
           \<lparr>entry_kind = KindFile, entry_name = ''recording-2024-03-01-09-00-00.webm'',
            getFile = Inr f2\<rparr>]
        \<or> dir_values dir =
          [\<lparr>entry_kind = KindFile, entry_name = ''recording-2024-03-01-09-00-00.webm'',
            getFile = Inr f2\<rparr>,
           \<lparr>entry_kind = KindFile, entry_name = ''recording-2024-01-05-10-30-00.webm'',
            getFile = Inr f1\<rparr>]"
  shows "map filename (recordings (loadRecordings env s))
          = [''recording-2024-03-01-09-00-00.webm'', ''recording-2024-01-05-10-30-00.webm'']"
proof -
  define tza where "tza = LocalTZA env"
  have "\<bar>tza 1704450600000\<bar> \<le> 86400000" "\<bar>tza 1709283600000\<bar> \<le> 86400000"
    using tz by (simp_all add: tza_def msPerDay_def)
  then have lt: "1704450600000 - tza 1704450600000 < 1709283600000 - tza 1709283600000"
    by linarith
  have e: "endsWith ''recording-2024-01-05-10-30-00.webm'' ''.webm''"
    "endsWith ''recording-2024-03-01-09-00-00.webm'' ''.webm''"
    by (simp_all add: endsWith_def)
  from d show ?thesis
  proof
    assume "dir_values dir =
          [\<lparr>entry_kind = KindFile, entry_name = ''recording-2024-01-05-10-30-00.webm'',
            getFile = Inr f1\<rparr>,
           \<lparr>entry_kind = KindFile, entry_name = ''recording-2024-03-01-09-00-00.webm'',
            getFile = Inr f2\<rparr>]"
    with s lt show ?thesis
      by (simp add: loadRecordings_def Let_def loadRecordings_entry_def e array_sort_def
          timestamp_jan timestamp_mar tza_def)
  next
    assume "dir_values dir =
          [\<lparr>entry_kind = KindFile, entry_name = ''recording-2024-03-01-09-00-00.webm'',
            getFile = Inr f2\<rparr>,
           \<lparr>entry_kind = KindFile, entry_name = ''recording-2024-01-05-10-30-00.webm'',
            getFile = Inr f1\<rparr>]"
    with s lt show ?thesis
      by (simp add: loadRecordings_def Let_def loadRecordings_entry_def e array_sort_def
          timestamp_jan timestamp_mar tza_def)
  qed
qed

text \<open>
  C7. The catalog that a refresh leaves is sorted by derived timestamp, newest first, for
  every folder (it is empty when there is no folder or the enumeration fails). A folder
  whose two readable files are \<open>recording-2024-01-05-10-30-00.webm\<close> and
  \<open>recording-2024-03-01-09-00-00.webm\<close>, enumerated in either order, gives the list
  with the file of 2024-03-01 first, in every time zone whose offset from UTC is at most
  a day.
\<close>

theorem loadRecordings_newest_first:
  "sorted_wrt (\<lambda>a b. timestamp b \<le> timestamp a) (recordings (loadRecordings env s))
   \<and> ((\<forall>t. \<bar>LocalTZA env t\<bar> \<le> msPerDay)
        \<and> folderHandle s = Some dir \<and> dir_values_rejects dir = None
        \<and> (dir_values dir =
              [\<lparr>entry_kind = KindFile, entry_name = ''recording-2024-01-05-10-30-00.webm'',
                getFile = Inr f1\<rparr>,
               \<lparr>entry_kind = KindFile, entry_name = ''recording-2024-03-01-09-00-00.webm'',
                getFile = Inr f2\<rparr>]
            \<or> dir_values dir =
              [\<lparr>entry_kind = KindFile, entry_name = ''recording-2024-03-01-09-00-00.webm'',
                getFile = Inr f2\<rparr>,
               \<lparr>entry_kind = KindFile, entry_name = ''recording-2024-01-05-10-30-00.webm'',
                getFile = Inr f1\<rparr>])
      \<longrightarrow> map filename (recordings (loadRecordings env s))
          = [''recording-2024-03-01-09-00-00.webm'', ''recording-2024-01-05-10-30-00.webm''])"
  using recordings_loadRecordings_sorted [of env s] loadRecordings_two_files [of env s dir f1 f2]
  by blast

theorem loadRecordings_newest_first_witness:
  "(\<forall>t. \<bar>LocalTZA working_env t\<bar> \<le> msPerDay)
   \<and> folderHandle (initial_state\<lparr>folderHandle := Some two_recordings_folder\<rparr>)
       = Some two_recordings_folder
   \<and> dir_values_rejects two_recordings_folder = None
   \<and> map filename (recordings (loadRecordings working_env
         (initial_state\<lparr>folderHandle := Some two_recordings_folder\<rparr>)))
       = [''recording-2024-03-01-09-00-00.webm'', ''recording-2024-01-05-10-30-00.webm'']
   \<and> sorted_wrt (\<lambda>a b. timestamp b \<le> timestamp a)
        (recordings (loadRecordings working_env
          (initial_state\<lparr>folderHandle := Some two_recordings_folder\<rparr>)))"
proof -
  have tz: "\<forall>t. \<bar>LocalTZA working_env t\<bar> \<le> msPerDay"
    by (simp add: working_env_def msPerDay_def)
  show ?thesis
    using tz loadRecordings_newest_first [of working_env
        "initial_state\<lparr>folderHandle := Some two_recordings_folder\<rparr>" two_recordings_folder
        "\<lparr>lastModified = 7, file_size = 10\<rparr>" "\<lparr>lastModified = 3, file_size = 20\<rparr>"]
    by (simp add: two_recordings_folder_def)
qed

subsection \<open>Files with other names\<close>

lemma loadRecordings_entry_keeps:
  "r \<in> set acc \<Longrightarrow> r \<in> set (loadRecordings_entry tza acc e)"
  by (simp add: loadRecordings_entry_def split: sum.split)

lemma foldl_loadRecordings_entry_keeps:
  "r \<in> set acc \<Longrightarrow> r \<in> set (foldl (loadRecordings_entry tza) acc es)"
  by (induction es arbitrary: acc) (simp_all add: loadRecordings_entry_keeps)

lemma foldl_loadRecordings_entry_lists:
  assumes "e \<in> set es" "entry_kind e = KindFile" "endsWith (entry_name e) ''.webm''"
    "getFile e = Inr f"
  shows "\<lparr>filename = entry_name e, timestamp = recording_timestamp tza (entry_name e) f,
          size_bytes = file_size f, fileHandle = e\<rparr>
         \<in> set (foldl (loadRecordings_entry tza) acc es)"
  using assms(1)
proof (induction es arbitrary: acc)
  case Nil
  then show ?case by simp
next
  case (Cons x xs)
  show ?case
  proof (cases "x = e")
    case True
    have "\<lparr>filename = entry_name e, timestamp = recording_timestamp tza (entry_name e) f,
          size_bytes = file_size f, fileHandle = e\<rparr> \<in> set (loadRecordings_entry tza acc e)"
      using assms(2-4) by (simp add: loadRecordings_entry_def)
    then show ?thesis
      using True by (simp add: foldl_loadRecordings_entry_keeps)
  next
    case False
    with Cons.prems have "e \<in> set xs" by simp
    then show ?thesis by (simp add: Cons.IH)
  qed
qed

text \<open>
  C8. A file of the folder that can be read, whose name ends with \<open>.webm\<close> and does not
  match the pattern of generated names, is in the catalog after a refresh that enumerates
  the folder to its end, with the file's modification time as timestamp and the file's
  size.
\<close>

theorem loadRecordings_lists_unmatched_webm:
  assumes "folderHandle s = Some dir" "dir_values_rejects dir = None"
    and "e \<in> set (dir_values dir)" "entry_kind e = KindFile"
    and "endsWith (entry_name e) ''.webm''"
    and "match_anywhere recording_pattern (entry_name e) = None"
    and "getFile e = Inr f"
  shows "\<lparr>filename = entry_name e, timestamp = lastModified f,
          size_bytes = file_size f, fileHandle = e\<rparr>
         \<in> set (recordings (loadRecordings env s))"
proof -
  have "recording_timestamp (LocalTZA env) (entry_name e) f = lastModified f"
    using assms(6) by (simp add: recording_timestamp_def)
  then show ?thesis
    using foldl_loadRecordings_entry_lists [OF assms(3,4,5,7), of "LocalTZA env" "[]"] assms(1,2)
    by (simp add: loadRecordings_def Let_def set_array_sort)
qed

theorem loadRecordings_lists_unmatched_webm_witness:
  "folderHandle (initial_state\<lparr>folderHandle := Some renamed_file_folder\<rparr>)
     = Some renamed_file_folder
   \<and> dir_values_rejects renamed_file_folder = None
   \<and> hd (dir_values renamed_file_folder) \<in> set (dir_values renamed_file_folder)
   \<and> entry_kind (hd (dir_values renamed_file_folder)) = KindFile
   \<and> endsWith (entry_name (hd (dir_values renamed_file_folder))) ''.webm''
   \<and> match_anywhere recording_pattern (entry_name (hd (dir_values renamed_file_folder))) = None
   \<and> getFile (hd (dir_values renamed_file_folder))
       = Inr \<lparr>lastModified = 1709283600000, file_size = 42\<rparr>
   \<and> \<lparr>filename = ''holiday.webm'', timestamp = 1709283600000, size_bytes = 42,
        fileHandle = hd (dir_values renamed_file_folder)\<rparr>
       \<in> set (recordings (loadRecordings working_env
             (initial_state\<lparr>folderHandle := Some renamed_file_folder\<rparr>)))"
proof -
  have h: "folderHandle (initial_state\<lparr>folderHandle := Some renamed_file_folder\<rparr>)
      = Some renamed_file_folder"
    "dir_values_rejects renamed_file_folder = None"
    "hd (dir_values renamed_file_folder) \<in> set (dir_values renamed_file_folder)"
    "entry_kind (hd (dir_values renamed_file_folder)) = KindFile"
    "endsWith (entry_name (hd (dir_values renamed_file_folder))) ''.webm''"
    "match_anywhere recording_pattern (entry_name (hd (dir_values renamed_file_folder))) = None"
    "getFile (hd (dir_values renamed_file_folder))
       = Inr \<lparr>lastModified = 1709283600000, file_size = 42\<rparr>"
    by (simp_all add: renamed_file_folder_def endsWith_def recording_pattern_def)
  show ?thesis
    using h loadRecordings_lists_unmatched_webm [OF h, of working_env]
    by (simp add: renamed_file_folder_def)
qed

subsection \<open>Source toggles during a session\<close>

lemma recording_state_eq:
  "recording_state =
     \<lparr>folderHandle = Some empty_folder, deviceError = None, selectedMicId = [],
      selectedCameraId = [], isMicEnabled = True, isCameraEnabled = True,
      isScreenEnabled = False, screenStream = None, isRecording = True,
      recordingError = None, recordingDuration = 0, saveSuccess = None, recordings = [],
      isLoadingRecordings = False, playbackError = None,
      mediaRecorderRef = Some
        \<lparr>rec_state = Recording,
          rec_stream = [(Camera, \<lparr>track_kind = Video, track_id = 1\<rparr>),
                        (Microphone, \<lparr>track_kind = Audio, track_id = 2\<rparr>)],
          rec_mimeType = ''video/webm;codecs=vp9'', rec_screenStream = None\<rparr>,
      recordedChunksRef = [],
      mediaStreamRef = Some [(Camera, \<lparr>track_kind = Video, track_id = 1\<rparr>),
                             (Microphone, \<lparr>track_kind = Audio, track_id = 2\<rparr>)],
      recordingTimerRef = Some 1, localStorage = Map.empty, intervals = [1],
      effects = [GetUserMedia Camera None, GetUserMedia Microphone None,
                 NewMediaStream [(Camera, \<lparr>track_kind = Video, track_id = 1\<rparr>),
                                   (Microphone, \<lparr>track_kind = Audio, track_id = 2\<rparr>)],
                 NewMediaRecorder [(Camera, \<lparr>track_kind = Video, track_id = 1\<rparr>),
                                   (Microphone, \<lparr>track_kind = Audio, track_id = 2\<rparr>)]
                   ''video/webm;codecs=vp9'']\<rparr>"
  by (simp add: recording_state_def handleStartRecording_def initial_state_def working_env_def
      startRecording_video_def startRecording_audio_def startRecording_recorder_def
      select_mimeType_def getVideoTracks_def getAudioTracks_def Let_def)

text \<open>
  C9. While a session is recording, the microphone and camera toggle buttons are
  disabled: a click on either leaves the whole state as it is, and so the enabled flag
  and the stored preference. In any state the toggle handlers touch nothing of a
  session: the recorder, its track set and the calls to the devices stay as they are,
  and the flags are read when the next session starts.
\<close>

theorem toggles_disabled_while_recording:
  assumes "isRecording s"
  shows "click ToggleMicButton env s = s
       \<and> click ToggleCameraButton env s = s
       \<and> isMicEnabled (click ToggleMicButton env s) = isMicEnabled s
       \<and> localStorage (click ToggleMicButton env s) MIC_ENABLED_KEY
           = localStorage s MIC_ENABLED_KEY
       \<and> isCameraEnabled (click ToggleCameraButton env s) = isCameraEnabled s
       \<and> localStorage (click ToggleCameraButton env s) CAMERA_ENABLED_KEY
           = localStorage s CAMERA_ENABLED_KEY
       \<and> mediaRecorderRef (handleToggleMic s) = mediaRecorderRef s
       \<and> mediaStreamRef (handleToggleMic s) = mediaStreamRef s
       \<and> effects (handleToggleMic s) = effects s
       \<and> mediaRecorderRef (handleToggleCamera s) = mediaRecorderRef s
       \<and> mediaStreamRef (handleToggleCamera s) = mediaStreamRef s
       \<and> effects (handleToggleCamera s) = effects s"
  using assms by (simp add: click_def handleToggleMic_def handleToggleCamera_def Let_def)

theorem toggles_disabled_while_recording_witness:
  "isRecording recording_state
   \<and> click ToggleMicButton working_env recording_state = recording_state
   \<and> click ToggleCameraButton working_env recording_state = recording_state
   \<and> isMicEnabled (click ToggleMicButton working_env recording_state)
   \<and> isCameraEnabled (click ToggleCameraButton working_env recording_state)"
proof -
  have h: "isRecording recording_state"
    by (simp add: recording_state_eq)
  have "isMicEnabled recording_state" "isCameraEnabled recording_state"
    by (simp_all add: recording_state_eq)
  then show ?thesis
    using h toggles_disabled_while_recording [OF h, of working_env] by simp
qed

subsection \<open>Persistence of a blob\<close>

lemma effects_loadRecordings [simp]: "effects (loadRecordings env s) = effects s"
  by (simp add: loadRecordings_def Let_def split: option.split thrown.split)

lemma saveSuccess_loadRecordings [simp]: "saveSuccess (loadRecordings env s) = saveSuccess s"
  by (simp add: loadRecordings_def Let_def split: option.split thrown.split)

lemma recordingError_loadRecordings [simp]:
  "recordingError (loadRecordings env s) = recordingError s"
  by (simp add: loadRecordings_def Let_def split: option.split thrown.split)

text \<open>
  C6. Persistence of a blob under the generated filename: when there is no folder handle,
  or the write through the handle fails, the blob is handed to a download under that
  same filename; otherwise it is written through the handle under it. Either way
  persistence completes with a success message and without a recording error.
\<close>

theorem saveRecording_falls_back_to_download:
  "(folderHandle s = None \<or> folder_write_rejects env \<noteq> None \<longrightarrow>
      effects (saveRecording env b s) = effects s @ [Download (generateFilename (now env)) b]
      \<and> saveSuccess (saveRecording env b s)
          = Some (''Recording downloaded: '' @ generateFilename (now env)))
   \<and> (folderHandle s \<noteq> None \<and> folder_write_rejects env = None \<longrightarrow>
      effects (saveRecording env b s) = effects s @ [FolderWrite (generateFilename (now env)) b]
      \<and> saveSuccess (saveRecording env b s)
          = Some (''Recording saved: '' @ generateFilename (now env)))
   \<and> recordingError (saveRecording env b s) = recordingError s"
  by (auto simp: saveRecording_def Let_def split: option.split)

theorem saveRecording_falls_back_to_download_witness:
  "folder_write_rejects (working_env\<lparr>folder_write_rejects := Some (JsError ''NotAllowedError'' [])\<rparr>)
      \<noteq> None
   \<and> effects (saveRecording
        (working_env\<lparr>folder_write_rejects := Some (JsError ''NotAllowedError'' [])\<rparr>)
        (final_data working_env) recording_state)
      = effects recording_state
        @ [Download ''recording-2024-01-05-10-30-00.webm'' (final_data working_env)]
   \<and> folderHandle recording_state \<noteq> None \<and> folder_write_rejects working_env = None
   \<and> effects (saveRecording working_env (final_data working_env) recording_state)
      = effects recording_state
        @ [FolderWrite ''recording-2024-01-05-10-30-00.webm'' (final_data working_env)]"
proof -
  have n: "now working_env = 1704450600000" by (simp add: working_env_def)
  have h1: "folder_write_rejects
      (working_env\<lparr>folder_write_rejects := Some (JsError ''NotAllowedError'' [])\<rparr>) \<noteq> None"
    by simp
  have h2: "folderHandle recording_state \<noteq> None" "folder_write_rejects working_env = None"
    by (simp_all add: recording_state_eq working_env_def)
  show ?thesis
    using h1 h2
      saveRecording_falls_back_to_download
        [of recording_state "working_env\<lparr>folder_write_rejects := Some (JsError ''NotAllowedError'' [])\<rparr>"
          "final_data working_env"]
      saveRecording_falls_back_to_download [of recording_state working_env "final_data working_env"]
    by (simp add: n generateFilename_2024)
qed

subsection \<open>The saved artifact in the catalog\<close>

text \<open>
  C1. The round trip between \<open>generateFilename\<close> and the catalog's parsing fails where
  local time is not UTC. A recording saved at the wall-clock time 2024-01-05T10:30:00Z
  (time value 1704450600000) in a zone one hour ahead of UTC gets a name with the UTC
  fields 10-30-00, and the refresh that follows the save, reading them as local time,
  lists it with the timestamp 2024-01-05T09:30:00Z (1704447000000): one hour before the
  time of the recording.
\<close>

theorem generateFilename_roundtrip_off_by_zone:
  "now working_env = 1704450600000
   \<and> LocalTZA working_env 1704450600000 = 3600000
   \<and> generateFilename (now working_env) = ''recording-2024-01-05-10-30-00.webm''
   \<and> recording_timestamp (LocalTZA working_env) (generateFilename (now working_env))
         \<lparr>lastModified = 1704450600000, file_size = 3\<rparr> = 1704447000000
   \<and> map (\<lambda>r. (filename r, timestamp r))
         (recordings (saveRecording working_env (final_data working_env) recording_state))
       = [(''recording-2024-01-05-10-30-00.webm'', 1704447000000)]"
proof -
  have n: "now working_env = 1704450600000" "LocalTZA working_env = (\<lambda>_. 3600000)"
    "folder_write_rejects working_env = None" "written_lastModified working_env = 1704450600000"
    "blob_size (final_data working_env) = 3"
    by (simp_all add: working_env_def blob_size_def)
  have t: "recording_timestamp (\<lambda>_. 3600000) (generateFilename 1704450600000) f = 1704447000000"
    for f
  proof -
    have "recording_timestamp (\<lambda>_. 3600000) (generateFilename 1704450600000) f
        = UTC (\<lambda>_. 3600000) (1704450600000 - msFromTime 1704450600000)"
      by (rule recording_timestamp_roundtrip) (simp_all add: fields_2024)
    then show ?thesis
      by (simp add: UTC_def fields_2024)
  qed
  have e: "endsWith ''recording-2024-01-05-10-30-00.webm'' ''.webm''"
    by (simp add: endsWith_def)
  have "map (\<lambda>r. (filename r, timestamp r))
         (recordings (saveRecording working_env (final_data working_env) recording_state))
       = [(''recording-2024-01-05-10-30-00.webm'', 1704447000000)]"
    using t [unfolded generateFilename_2024]
    by (simp add: saveRecording_def n generateFilename_2024 recording_state_eq writeFile_def
        empty_folder_def loadRecordings_def loadRecordings_entry_def array_sort_def e Let_def)
  then show ?thesis
    using t by (simp add: n generateFilename_2024)
qed

subsection \<open>Start during a session\<close>

text \<open>
  C2 (as amended). While a session is recording the start button is not rendered (the
  stop button takes its place), so a click does not reach \<open>handleStartRecording\<close>: the
  state stays as it is, with its recorder, chunk sequence, elapsed seconds and timer, and
  no call is made to the platform. No validation error is reported either.
\<close>

theorem start_unavailable_while_recording:
  assumes "isRecording s"
  shows "click StartRecordingButton env s = s"
  using assms by (simp add: click_def)

theorem start_unavailable_while_recording_witness:
  "isRecording recording_state
   \<and> click StartRecordingButton working_env recording_state = recording_state"
proof -
  have h: "isRecording recording_state"
    by (simp add: recording_state_eq)
  show ?thesis
    using h start_unavailable_while_recording [OF h, of working_env] by simp
qed

text \<open>
  The handler itself does not test the recording flag. Called in a recording session that
  has gathered a chunk, it empties the chunk sequence, acquires the devices again and
  creates a second recorder, and reports no error; and the click that the rendering
  prevents reports no error.
\<close>

theorem handleStartRecording_while_recording_counterexample:
  "isRecording (ondataavailable (final_data working_env) recording_state)
   \<and> recordedChunksRef (ondataavailable (final_data working_env) recording_state)
       = [final_data working_env]
   \<and> recordedChunksRef
        (handleStartRecording working_env
          (ondataavailable (final_data working_env) recording_state)) = []
   \<and> recordingError
        (handleStartRecording working_env
          (ondataavailable (final_data working_env) recording_state)) = None
   \<and> effects
        (handleStartRecording working_env
          (ondataavailable (final_data working_env) recording_state))
       = effects recording_state
         @ [GetUserMedia Camera None, GetUserMedia Microphone None,
            NewMediaStream [(Camera, \<lparr>track_kind = Video, track_id = 1\<rparr>),
                              (Microphone, \<lparr>track_kind = Audio, track_id = 2\<rparr>)],
            NewMediaRecorder [(Camera, \<lparr>track_kind = Video, track_id = 1\<rparr>),
                              (Microphone, \<lparr>track_kind = Audio, track_id = 2\<rparr>)]
              ''video/webm;codecs=vp9'']
   \<and> recordingError (click StartRecordingButton working_env recording_state) = None"
  by (simp add: ondataavailable_def blob_size_def click_def recording_state_eq
      handleStartRecording_def working_env_def
      startRecording_video_def startRecording_audio_def startRecording_recorder_def
      select_mimeType_def getVideoTracks_def getAudioTracks_def Let_def)

subsection \<open>The track set of a session\<close>

lemma startRecording_video_result:
  assumes "startRecording_video env s = (r, s1)"
  shows "\<exists>a. effects s1 = effects s @ a
           \<and> NewMediaStream tracks \<notin> set a
           \<and> (isScreenEnabled s \<and> screenStream s \<noteq> None \<longrightarrow> a = [])"
    and "r = Inr vt \<Longrightarrow> isScreenEnabled s \<and> screenStream s \<noteq> None \<Longrightarrow>
           vt = (case getVideoTracks (the (screenStream s)) of
                   [] \<Rightarrow> [] | t # _ \<Rightarrow> [(Screen, t)])"
    and "r = Inr vt \<Longrightarrow> \<not> (isScreenEnabled s \<and> screenStream s \<noteq> None) \<Longrightarrow>
           fst ` set vt \<subseteq> {Camera}"
  using assms
  by (auto simp: startRecording_video_def Let_def
      split: if_splits list.splits sum.splits)

lemma startRecording_audio_result:
  assumes "startRecording_audio env vt s1 = (r, s2)"
  shows "\<exists>a. effects s2 = effects s1 @ a
           \<and> NewMediaStream tracks \<notin> set a
           \<and> GetUserMedia Camera deviceId \<notin> set a"
    and "r = Inr ts \<Longrightarrow> ts = vt \<or> (\<exists>t. ts = vt @ [(Microphone, t)])"
  using assms
  by (auto simp: startRecording_audio_def Let_def
      split: if_splits list.splits sum.splits)

lemma startRecording_recorder_result:
  assumes "startRecording_recorder env ts s2 = (r, s3)"
  shows "\<exists>a. effects s3 = effects s2 @ a
           \<and> set a \<subseteq> {NewMediaStream ts, NewMediaRecorder ts (select_mimeType env)}"
    and "mediaStreamRef s3 = Some ts"
  using assms
  by (auto simp: startRecording_recorder_def Let_def split: option.splits)

lemma startRecording_catch_frame [simp]:
  "effects (startRecording_catch err s) = effects s"
  "mediaStreamRef (startRecording_catch err s) = mediaStreamRef s"
  by (simp_all add: startRecording_catch_def split: thrown.split)


lemma handleStartRecording_new_effects:
  assumes new: "effects (handleStartRecording env s) = effects s @ new"
  defines "live \<equiv> isScreenEnabled s \<and> screenStream s \<noteq> None"
  shows "NewMediaStream tracks \<in> set new \<Longrightarrow>
           mediaStreamRef (handleStartRecording env s) = Some tracks
           \<and> (\<exists>vt. (tracks = vt \<or> (\<exists>t. tracks = vt @ [(Microphone, t)]))
                 \<and> (live \<longrightarrow> vt = (case getVideoTracks (the (screenStream s)) of
                                      [] \<Rightarrow> [] | t # _ \<Rightarrow> [(Screen, t)]))
                 \<and> (\<not> live \<longrightarrow> fst ` set vt \<subseteq> {Camera}))"
    and "live \<Longrightarrow> GetUserMedia Camera deviceId \<notin> set new"
proof -
  define s0 where "s0 = s\<lparr>recordingError := None, saveSuccess := None, recordedChunksRef := []\<rparr>"
  have s0: "effects s0 = effects s" "isScreenEnabled s0 = isScreenEnabled s"
    "screenStream s0 = screenStream s"
    by (simp_all add: s0_def)
  obtain rv s1 where v: "startRecording_video env s0 = (rv, s1)"
    by (cases "startRecording_video env s0")
  from startRecording_video_result(1) [OF v, of tracks]
  obtain a1 where a1: "effects s1 = effects s @ a1" "NewMediaStream tracks \<notin> set a1"
    "live \<longrightarrow> a1 = []"
    by (auto simp: s0 live_def)
  have goal: "(NewMediaStream tracks \<in> set new \<longrightarrow>
           mediaStreamRef (handleStartRecording env s) = Some tracks
           \<and> (\<exists>vt. (tracks = vt \<or> (\<exists>t. tracks = vt @ [(Microphone, t)]))
                 \<and> (live \<longrightarrow> vt = (case getVideoTracks (the (screenStream s)) of
                                      [] \<Rightarrow> [] | t # _ \<Rightarrow> [(Screen, t)]))
                 \<and> (\<not> live \<longrightarrow> fst ` set vt \<subseteq> {Camera})))
        \<and> (live \<longrightarrow> GetUserMedia Camera deviceId \<notin> set new)"
  proof (cases "(\<not> (isCameraEnabled s \<or> isScreenEnabled s) \<and> \<not> isMicEnabled s)
                \<or> (isScreenEnabled s \<and> screenStream s = None)")
    case True
    then have "effects (handleStartRecording env s) = effects s"
      by (auto simp: handleStartRecording_def Let_def)
    with new have "new = []" by simp
    then show ?thesis by simp
  next
    case False
    then have h: "handleStartRecording env s =
        (case startRecording_video env s0 of
           (Inl err, s1) \<Rightarrow> startRecording_catch err s1
         | (Inr videoTracks, s1) \<Rightarrow>
             (case startRecording_audio env videoTracks s1 of
                (Inl err, s2) \<Rightarrow> startRecording_catch err s2
              | (Inr tracks, s2) \<Rightarrow>
                  (case startRecording_recorder env tracks s2 of
                     (Some err, s3) \<Rightarrow> startRecording_catch err s3
                   | (None, s3) \<Rightarrow> s3)))"
      by (auto simp: handleStartRecording_def Let_def s0_def)
    show ?thesis
    proof (cases rv)
      case (Inl err)
      with h v a1 new have "new = a1" by simp
      with a1 show ?thesis by simp
    next
      case (Inr vt)
      note vt = startRecording_video_result(2,3) [OF v Inr, unfolded s0, folded live_def]
      obtain ra s2 where a: "startRecording_audio env vt s1 = (ra, s2)"
        by (cases "startRecording_audio env vt s1")
      from startRecording_audio_result(1) [OF a, of tracks deviceId]
      obtain a2 where a2: "effects s2 = effects s1 @ a2" "NewMediaStream tracks \<notin> set a2"
        "GetUserMedia Camera deviceId \<notin> set a2"
        by auto
      show ?thesis
      proof (cases ra)
        case (Inl err)
        with h v a Inr a1 a2 new have "new = a1 @ a2" by simp
        with a1 a2 show ?thesis by simp
      next
        case ts: (Inr ts)
        note shape = startRecording_audio_result(2) [OF a ts]
        obtain rr s3 where r: "startRecording_recorder env ts s2 = (rr, s3)"
          by (cases "startRecording_recorder env ts s2")
        from startRecording_recorder_result [OF r]
        obtain a3 where a3: "effects s3 = effects s2 @ a3"
          "set a3 \<subseteq> {NewMediaStream ts, NewMediaRecorder ts (select_mimeType env)}"
          and m: "mediaStreamRef s3 = Some ts"
          by auto
        have e: "effects (handleStartRecording env s) = effects s3"
          and m': "mediaStreamRef (handleStartRecording env s) = Some ts"
          using h v a r Inr ts m by (simp_all split: option.split)
        from e a1 a2 a3 new have n: "new = a1 @ a2 @ a3" by simp
        have cam: "live \<longrightarrow> GetUserMedia Camera deviceId \<notin> set new"
          using n a1 a2 a3 by auto
        have "NewMediaStream tracks \<in> set new \<longrightarrow> tracks = ts"
          using n a1 a2 a3 by auto
        with m' shape vt cam show ?thesis by blast
      qed
    qed
  qed
  from goal show "NewMediaStream tracks \<in> set new \<Longrightarrow>
           mediaStreamRef (handleStartRecording env s) = Some tracks
           \<and> (\<exists>vt. (tracks = vt \<or> (\<exists>t. tracks = vt @ [(Microphone, t)]))
                 \<and> (live \<longrightarrow> vt = (case getVideoTracks (the (screenStream s)) of
                                      [] \<Rightarrow> [] | t # _ \<Rightarrow> [(Screen, t)]))
                 \<and> (\<not> live \<longrightarrow> fst ` set vt \<subseteq> {Camera}))"
    by blast
  from goal show "live \<Longrightarrow> GetUserMedia Camera deviceId \<notin> set new"
    by blast
qed

lemma new_effects_track_set:
  assumes "effects (handleStartRecording env s) = effects s @ new"
  shows "(NewMediaStream tracks \<in> set new \<longrightarrow>
            \<not> (Screen \<in> fst ` set tracks \<and> Camera \<in> fst ` set tracks)
            \<and> (Camera \<in> fst ` set tracks \<longrightarrow>
                 \<not> (isScreenEnabled s \<and> screenStream s \<noteq> None))
            \<and> mediaStreamRef (handleStartRecording env s) = Some tracks)
       \<and> (isScreenEnabled s \<and> screenStream s = Some ms \<longrightarrow>
            GetUserMedia Camera deviceId \<notin> set new
            \<and> (NewMediaStream tracks \<in> set new \<and> getVideoTracks ms \<noteq> [] \<longrightarrow>
                 (Screen, hd (getVideoTracks ms)) \<in> set tracks))"
proof -
  note l = handleStartRecording_new_effects(1) [OF assms, of tracks]
    handleStartRecording_new_effects(2) [OF assms, of deviceId]
  show ?thesis
  proof (cases "NewMediaStream tracks \<in> set new")
    case False
    with l(2) show ?thesis by auto
  next
    case True
    from l(1) [OF True] obtain vt where
      m: "mediaStreamRef (handleStartRecording env s) = Some tracks"
      and t: "tracks = vt \<or> (\<exists>t. tracks = vt @ [(Microphone, t)])"
      and live: "isScreenEnabled s \<and> screenStream s \<noteq> None \<Longrightarrow>
           vt = (case getVideoTracks (the (screenStream s)) of [] \<Rightarrow> [] | t # _ \<Rightarrow> [(Screen, t)])"
      and cam: "\<not> (isScreenEnabled s \<and> screenStream s \<noteq> None) \<Longrightarrow> fst ` set vt \<subseteq> {Camera}"
      by blast
    show ?thesis
    proof (cases "isScreenEnabled s \<and> screenStream s \<noteq> None")
      case False
      with cam have "Screen \<notin> fst ` set vt" by auto
      with t have "Screen \<notin> fst ` set tracks" by auto
      with False m show ?thesis by auto
    next
      case yes: True
      have c: "Camera \<notin> fst ` set vt"
        using live [OF yes] by (auto split: list.splits)
      with t have c': "Camera \<notin> fst ` set tracks" by auto
      have "getVideoTracks (the (screenStream s)) \<noteq> [] \<Longrightarrow>
          (Screen, hd (getVideoTracks (the (screenStream s)))) \<in> set vt"
        using live [OF yes] by (auto split: list.splits)
      with t have "getVideoTracks (the (screenStream s)) \<noteq> [] \<Longrightarrow>
          (Screen, hd (getVideoTracks (the (screenStream s)))) \<in> set tracks"
        by auto
      with c' m l(2) yes show ?thesis by auto
    qed
  qed
qed

lemma handleStartRecording_extends_effects:
  "\<exists>new. effects (handleStartRecording env s) = effects s @ new"
proof -
  define s0 where "s0 = s\<lparr>recordingError := None, saveSuccess := None, recordedChunksRef := []\<rparr>"
  have s0: "effects s0 = effects s" by (simp add: s0_def)
  obtain rv s1 where v: "startRecording_video env s0 = (rv, s1)"
    by (cases "startRecording_video env s0")
  from startRecording_video_result(1) [OF v] s0
  obtain a1 where a1: "effects s1 = effects s @ a1" by metis
  show ?thesis
  proof (cases rv)
    case (Inl err)
    with v a1 show ?thesis
      by (simp add: handleStartRecording_def Let_def s0_def [symmetric] s0)
  next
    case (Inr vt)
    obtain ra s2 where a: "startRecording_audio env vt s1 = (ra, s2)"
      by (cases "startRecording_audio env vt s1")
    from startRecording_audio_result(1) [OF a]
    obtain a2 where a2: "effects s2 = effects s1 @ a2" by metis
    show ?thesis
    proof (cases ra)
      case (Inl err)
      with v a a1 a2 Inr show ?thesis
        by (simp add: handleStartRecording_def Let_def s0_def [symmetric] s0)
    next
      case ts: (Inr ts)
      obtain rr s3 where r: "startRecording_recorder env ts s2 = (rr, s3)"
        by (cases "startRecording_recorder env ts s2")
      from startRecording_recorder_result(1) [OF r]
      obtain a3 where a3: "effects s3 = effects s2 @ a3" by metis
      from v a r a1 a2 a3 Inr ts show ?thesis
        by (simp add: handleStartRecording_def Let_def s0_def [symmetric] s0 split: option.split)
    qed
  qed
qed

text \<open>
  C3. The calls that \<open>handleStartRecording\<close> makes, for any toggles and any platform:
  the track set it combines into the stream of the session (the one the recorder is
  created on) never holds both a track of the screen stream and a track of the camera; a camera
  track is in it only when the screen is not enabled with a live stream; with the screen
  enabled and its stream live, the first video track of the screen stream is in the set
  and the camera is not asked for.
\<close>

theorem track_set_screen_or_camera:
  "\<exists>new. effects (handleStartRecording env s) = effects s @ new
     \<and> (\<forall>tracks. NewMediaStream tracks \<in> set new \<longrightarrow>
            \<not> (Screen \<in> fst ` set tracks \<and> Camera \<in> fst ` set tracks)
            \<and> (Camera \<in> fst ` set tracks \<longrightarrow>
                 \<not> (isScreenEnabled s \<and> screenStream s \<noteq> None))
            \<and> mediaStreamRef (handleStartRecording env s) = Some tracks
            \<and> (isScreenEnabled s \<and> screenStream s \<noteq> None
                 \<and> getVideoTracks (the (screenStream s)) \<noteq> [] \<longrightarrow>
                 (Screen, hd (getVideoTracks (the (screenStream s)))) \<in> set tracks))
     \<and> (isScreenEnabled s \<and> screenStream s \<noteq> None \<longrightarrow>
            (\<forall>deviceId. GetUserMedia Camera deviceId \<notin> set new))"
proof -
  obtain new where new: "effects (handleStartRecording env s) = effects s @ new"
    using handleStartRecording_extends_effects by blast
  have "NewMediaStream tracks \<in> set new \<longrightarrow>
            \<not> (Screen \<in> fst ` set tracks \<and> Camera \<in> fst ` set tracks)
            \<and> (Camera \<in> fst ` set tracks \<longrightarrow>
                 \<not> (isScreenEnabled s \<and> screenStream s \<noteq> None))
            \<and> mediaStreamRef (handleStartRecording env s) = Some tracks
            \<and> (isScreenEnabled s \<and> screenStream s \<noteq> None
                 \<and> getVideoTracks (the (screenStream s)) \<noteq> [] \<longrightarrow>
                 (Screen, hd (getVideoTracks (the (screenStream s)))) \<in> set tracks)"
    for tracks
    using new_effects_track_set [OF new, of tracks "the (screenStream s)"]
    by auto
  moreover have "isScreenEnabled s \<and> screenStream s \<noteq> None \<longrightarrow>
      GetUserMedia Camera deviceId \<notin> set new" for deviceId
    using new_effects_track_set [OF new, of _ "the (screenStream s)" deviceId]
    by auto
  ultimately show ?thesis
    using new by blast
qed

theorem track_set_screen_or_camera_witness:
  "isCameraEnabled screen_sharing_state
   \<and> isScreenEnabled screen_sharing_state
   \<and> screenStream screen_sharing_state = Some [\<lparr>track_kind = Video, track_id = 9\<rparr>]
   \<and> effects (handleStartRecording working_env screen_sharing_state)
       = effects screen_sharing_state
         @ [GetUserMedia Microphone None,
            NewMediaStream [(Screen, \<lparr>track_kind = Video, track_id = 9\<rparr>),
                              (Microphone, \<lparr>track_kind = Audio, track_id = 2\<rparr>)],
            NewMediaRecorder [(Screen, \<lparr>track_kind = Video, track_id = 9\<rparr>),
                              (Microphone, \<lparr>track_kind = Audio, track_id = 2\<rparr>)]
              ''video/webm;codecs=vp9'']
   \<and> mediaStreamRef (handleStartRecording working_env screen_sharing_state)
       = Some [(Screen, \<lparr>track_kind = Video, track_id = 9\<rparr>),
               (Microphone, \<lparr>track_kind = Audio, track_id = 2\<rparr>)]"
proof -
  have h: "effects (handleStartRecording working_env screen_sharing_state)
     = effects screen_sharing_state
       @ [GetUserMedia Microphone None,
          NewMediaStream [(Screen, \<lparr>track_kind = Video, track_id = 9\<rparr>),
                          (Microphone, \<lparr>track_kind = Audio, track_id = 2\<rparr>)],
          NewMediaRecorder [(Screen, \<lparr>track_kind = Video, track_id = 9\<rparr>),
                            (Microphone, \<lparr>track_kind = Audio, track_id = 2\<rparr>)]
            ''video/webm;codecs=vp9'']"
    by (simp add: screen_sharing_state_def handleStartRecording_def initial_state_def
        working_env_def startRecording_video_def startRecording_audio_def
        startRecording_recorder_def select_mimeType_def getVideoTracks_def getAudioTracks_def
        Let_def)
  have s: "isCameraEnabled screen_sharing_state" "isScreenEnabled screen_sharing_state"
    "screenStream screen_sharing_state = Some [\<lparr>track_kind = Video, track_id = 9\<rparr>]"
    by (simp_all add: screen_sharing_state_def initial_state_def)
  from track_set_screen_or_camera [of working_env screen_sharing_state]
  obtain new where new: "effects (handleStartRecording working_env screen_sharing_state)
      = effects screen_sharing_state @ new"
    and m: "\<And>tracks. NewMediaStream tracks \<in> set new \<Longrightarrow>
      mediaStreamRef (handleStartRecording working_env screen_sharing_state) = Some tracks"
    by blast
  from new h have "new = [GetUserMedia Microphone None,
          NewMediaStream [(Screen, \<lparr>track_kind = Video, track_id = 9\<rparr>),
                          (Microphone, \<lparr>track_kind = Audio, track_id = 2\<rparr>)],
          NewMediaRecorder [(Screen, \<lparr>track_kind = Video, track_id = 9\<rparr>),
                            (Microphone, \<lparr>track_kind = Audio, track_id = 2\<rparr>)]
            ''video/webm;codecs=vp9'']"
    by simp
  then have "mediaStreamRef (handleStartRecording working_env screen_sharing_state)
       = Some [(Screen, \<lparr>track_kind = Video, track_id = 9\<rparr>),
               (Microphone, \<lparr>track_kind = Audio, track_id = 2\<rparr>)]"
    using m [of "[(Screen, \<lparr>track_kind = Video, track_id = 9\<rparr>),
               (Microphone, \<lparr>track_kind = Audio, track_id = 2\<rparr>)]"]
    by simp
  with h s show ?thesis by simp
qed

subsection \<open>Persistence when a session ends\<close>

lemma persists_saveRecording:
  "filter persists (effects (saveRecording env b s)) =
     filter persists (effects s) @
       [if folderHandle s \<noteq> None \<and> folder_write_rejects env = None
        then FolderWrite (generateFilename (now env)) b
        else Download (generateFilename (now env)) b]"
  by (auto simp: saveRecording_def Let_def split: option.split)

lemma persists_onstop:
  "filter persists (effects (onstop env r s)) =
     filter persists (effects s) @
       (if recordedChunksRef s = [] then []
        else [if folderHandle s \<noteq> None \<and> folder_write_rejects env = None
              then FolderWrite (generateFilename (now env))
                     (newBlob (recordedChunksRef s)
                        (if rec_mimeType r \<noteq> [] then rec_mimeType r else ''video/webm''))
              else Download (generateFilename (now env))
                     (newBlob (recordedChunksRef s)
                        (if rec_mimeType r \<noteq> [] then rec_mimeType r else ''video/webm''))])"
proof -
  define s1 where "s1 = (case recordingTimerRef s of
                  Some timer \<Rightarrow>
                    (if timer \<noteq> 0
                     then s\<lparr>intervals := removeAll timer (intervals s),
                            recordingTimerRef := None\<rparr>
                     else s)
                | None \<Rightarrow> s)"
  define s2 where "s2 = (case mediaStreamRef s1 of
                  Some tracks \<Rightarrow>
                    s1\<lparr>effects := effects s1 @
                          map TrackStop
                            (filter (\<lambda>t. rec_screenStream r = None
                                          \<or> t \<notin> set (the (rec_screenStream r)))
                               (map snd tracks)),
                        mediaStreamRef := None\<rparr>
                | None \<Rightarrow> s1)"
  have no_stop: "filter persists (map TrackStop ts) = []" for ts
    by (induction ts) simp_all
  have s1: "effects s1 = effects s" "recordedChunksRef s1 = recordedChunksRef s"
    "folderHandle s1 = folderHandle s"
    by (simp_all add: s1_def split: option.split)
  have s2: "filter persists (effects s2) = filter persists (effects s)"
    "recordedChunksRef s2 = recordedChunksRef s" "folderHandle s2 = folderHandle s"
    by (simp_all add: s2_def s1 no_stop split: option.split)
  have "onstop env r s =
      (if recordedChunksRef s2 \<noteq> [] then
                  saveRecording env
                    (newBlob (recordedChunksRef s2)
                       (if rec_mimeType r \<noteq> [] then rec_mimeType r else ''video/webm''))
                    s2
                else s2)\<lparr>recordedChunksRef := [], recordingDuration := 0\<rparr>"
    unfolding onstop_def s1_def [symmetric] Let_def s2_def [symmetric] ..
  then show ?thesis
    by (simp add: s2 persists_saveRecording)
qed

lemma startRecording_video_persists:
  "startRecording_video env s = (r, s1) \<Longrightarrow>
     filter persists (effects s1) = filter persists (effects s)
     \<and> recordedChunksRef s1 = recordedChunksRef s"
  by (auto simp: startRecording_video_def Let_def split: if_splits list.splits sum.splits)

lemma startRecording_audio_persists:
  "startRecording_audio env vt s1 = (r, s2) \<Longrightarrow>
     filter persists (effects s2) = filter persists (effects s1)
     \<and> recordedChunksRef s2 = recordedChunksRef s1"
  by (auto simp: startRecording_audio_def Let_def split: if_splits list.splits sum.splits)

lemma startRecording_recorder_persists:
  "startRecording_recorder env ts s2 = (r, s3) \<Longrightarrow>
     filter persists (effects s3) = filter persists (effects s2)
     \<and> recordedChunksRef s3 = recordedChunksRef s2"
  by (auto simp: startRecording_recorder_def Let_def split: option.splits)

lemma startRecording_catch_chunks [simp]:
  "recordedChunksRef (startRecording_catch err s) = recordedChunksRef s"
  by (simp add: startRecording_catch_def split: thrown.split)

lemma handleStartRecording_persists:
  "filter persists (effects (handleStartRecording env s)) = filter persists (effects s)"
  "recordedChunksRef (handleStartRecording env s) = []"
proof -
  define s0 where "s0 = s\<lparr>recordingError := None, saveSuccess := None, recordedChunksRef := []\<rparr>"
  have s0: "effects s0 = effects s" "recordedChunksRef s0 = []"
    by (simp_all add: s0_def)
  obtain rv s1 where v: "startRecording_video env s0 = (rv, s1)"
    by (cases "startRecording_video env s0")
  note v' = startRecording_video_persists [OF v, unfolded s0]
  have "filter persists (effects (handleStartRecording env s)) = filter persists (effects s)
      \<and> recordedChunksRef (handleStartRecording env s) = []"
  proof (cases rv)
    case (Inl err)
    with v v' show ?thesis
      by (simp add: handleStartRecording_def Let_def s0_def [symmetric] s0)
  next
    case (Inr vt)
    obtain ra s2 where a: "startRecording_audio env vt s1 = (ra, s2)"
      by (cases "startRecording_audio env vt s1")
    note a' = startRecording_audio_persists [OF a]
    show ?thesis
    proof (cases ra)
      case (Inl err)
      with v v' a a' Inr show ?thesis
        by (simp add: handleStartRecording_def Let_def s0_def [symmetric] s0)
    next
      case ts: (Inr ts)
      obtain rr s3 where r: "startRecording_recorder env ts s2 = (rr, s3)"
        by (cases "startRecording_recorder env ts s2")
      note r' = startRecording_recorder_persists [OF r]
      from v v' a a' r r' Inr ts show ?thesis
        by (simp add: handleStartRecording_def Let_def s0_def [symmetric] s0 split: option.split)
    qed
  qed
  then show "filter persists (effects (handleStartRecording env s)) = filter persists (effects s)"
    "recordedChunksRef (handleStartRecording env s) = []"
    by simp_all
qed

lemma handleStopRecording_persists:
  "filter persists (effects (handleStopRecording s)) = filter persists (effects s)"
  "recordedChunksRef (handleStopRecording s) = recordedChunksRef s"
  by (simp_all add: handleStopRecording_def Let_def split: option.split)

text \<open>
  C4. When the recorder's stop handler runs, the blob of the accumulated chunks is
  persisted exactly once if there is a chunk (written through the folder handle, or
  downloaded when there is no handle or the write fails), and nothing is written or
  downloaded if there is none. So a start followed at once by a stop persists nothing
  when the recorder delivers no data, and at most one artifact otherwise.
\<close>

theorem onstop_persists_once_or_never:
  "filter persists (effects (onstop env r s)) =
     filter persists (effects s) @
       (if recordedChunksRef s = [] then []
        else [if folderHandle s \<noteq> None \<and> folder_write_rejects env = None
              then FolderWrite (generateFilename (now env))
                     (newBlob (recordedChunksRef s)
                        (if rec_mimeType r \<noteq> [] then rec_mimeType r else ''video/webm''))
              else Download (generateFilename (now env))
                     (newBlob (recordedChunksRef s)
                        (if rec_mimeType r \<noteq> [] then rec_mimeType r else ''video/webm''))])
   \<and> (\<exists>p. filter persists
              (effects (recorder_stopped env' (handleStopRecording (handleStartRecording env s))))
            = filter persists (effects s) @ p
          \<and> length p \<le> 1
          \<and> (blob_size (final_data env') = 0 \<longrightarrow> p = []))"
proof
  show "filter persists (effects (onstop env r s)) =
     filter persists (effects s) @
       (if recordedChunksRef s = [] then []
        else [if folderHandle s \<noteq> None \<and> folder_write_rejects env = None
              then FolderWrite (generateFilename (now env))
                     (newBlob (recordedChunksRef s)
                        (if rec_mimeType r \<noteq> [] then rec_mimeType r else ''video/webm''))
              else Download (generateFilename (now env))
                     (newBlob (recordedChunksRef s)
                        (if rec_mimeType r \<noteq> [] then rec_mimeType r else ''video/webm''))])"
    by (rule persists_onstop)
next
  define s2 where "s2 = handleStopRecording (handleStartRecording env s)"
  have s2: "filter persists (effects s2) = filter persists (effects s)"
    "recordedChunksRef s2 = []"
    by (simp_all add: s2_def handleStopRecording_persists handleStartRecording_persists)
  have d: "effects (ondataavailable b s2) = effects s2"
    "recordedChunksRef (ondataavailable b s2) = (if 0 < blob_size b then [b] else [])" for b
    by (simp_all add: ondataavailable_def s2)
  show "\<exists>p. filter persists
              (effects (recorder_stopped env' (handleStopRecording (handleStartRecording env s))))
            = filter persists (effects s) @ p
          \<and> length p \<le> 1
          \<and> (blob_size (final_data env') = 0 \<longrightarrow> p = [])"
    unfolding s2_def [symmetric]
    by (cases "mediaRecorderRef s2")
      (simp_all add: recorder_stopped_def persists_onstop d s2)
qed

theorem onstop_persists_once_or_never_witness:
  "filter persists
     (effects (recorder_stopped working_env
        (handleStopRecording
           (handleStartRecording working_env (initial_state\<lparr>folderHandle := Some empty_folder\<rparr>)))))
   = [FolderWrite ''recording-2024-01-05-10-30-00.webm''
        \<lparr>blob_bytes = [1, 2, 3], blob_type = ''video/webm;codecs=vp9''\<rparr>]
   \<and> blob_size (final_data (working_env\<lparr>final_data := \<lparr>blob_bytes = [], blob_type = []\<rparr>\<rparr>)) = 0
   \<and> filter persists
     (effects (recorder_stopped (working_env\<lparr>final_data := \<lparr>blob_bytes = [], blob_type = []\<rparr>\<rparr>)
        (handleStopRecording
           (handleStartRecording working_env (initial_state\<lparr>folderHandle := Some empty_folder\<rparr>)))))
   = []"
proof -
  have z: "blob_size (final_data (working_env\<lparr>final_data := \<lparr>blob_bytes = [], blob_type = []\<rparr>\<rparr>)) = 0"
    by (simp add: blob_size_def)
  have e: "filter persists (effects (initial_state\<lparr>folderHandle := Some empty_folder\<rparr>)) = []"
    by (simp add: initial_state_def)
  have st: "handleStopRecording recording_state =
      recording_state\<lparr>mediaRecorderRef := Some
        \<lparr>rec_state = Inactive,
          rec_stream = [(Camera, \<lparr>track_kind = Video, track_id = 1\<rparr>),
                        (Microphone, \<lparr>track_kind = Audio, track_id = 2\<rparr>)],
          rec_mimeType = ''video/webm;codecs=vp9'', rec_screenStream = None\<rparr>,
        effects := effects recording_state @ [RecorderStop], isRecording := False\<rparr>"
    by (simp add: handleStopRecording_def recording_state_eq)
  have one: "filter persists
     (effects (recorder_stopped working_env (handleStopRecording recording_state)))
   = [FolderWrite ''recording-2024-01-05-10-30-00.webm''
        \<lparr>blob_bytes = [1, 2, 3], blob_type = ''video/webm;codecs=vp9''\<rparr>]"
    unfolding st
    by (simp add: recorder_stopped_def onstop_persists_once_or_never [THEN conjunct1]
        ondataavailable_def blob_size_def recording_state_eq newBlob_def generateFilename_2024)
      (simp add: working_env_def generateFilename_2024)
  from onstop_persists_once_or_never [THEN conjunct2,
      of "working_env\<lparr>final_data := \<lparr>blob_bytes = [], blob_type = []\<rparr>\<rparr>" working_env
         "initial_state\<lparr>folderHandle := Some empty_folder\<rparr>"]
  have none: "filter persists
     (effects (recorder_stopped (working_env\<lparr>final_data := \<lparr>blob_bytes = [], blob_type = []\<rparr>\<rparr>)
        (handleStopRecording
           (handleStartRecording working_env (initial_state\<lparr>folderHandle := Some empty_folder\<rparr>)))))
   = []"
    using z e by auto
  show ?thesis
    using one none z by (simp add: recording_state_def)
qed

subsection \<open>Encoder errors\<close>


lemma loadRecordings_session_frame [simp]:
  "isRecording (loadRecordings env s) = isRecording s"
  "recordingTimerRef (loadRecordings env s) = recordingTimerRef s"
  "intervals (loadRecordings env s) = intervals s"
  by (simp_all add: loadRecordings_def Let_def split: option.split thrown.split)

lemma saveRecording_session_frame [simp]:
  "isRecording (saveRecording env b s) = isRecording s"
  "recordingError (saveRecording env b s) = recordingError s"
  "recordingTimerRef (saveRecording env b s) = recordingTimerRef s"
  "intervals (saveRecording env b s) = intervals s"
  by (simp_all add: saveRecording_def Let_def split: option.split)


lemma ondataavailable_session [simp]:
  "isRecording (ondataavailable d s) = isRecording s"
  "recordingError (ondataavailable d s) = recordingError s"
  "recordingTimerRef (ondataavailable d s) = recordingTimerRef s"
  "intervals (ondataavailable d s) = intervals s"
  "effects (ondataavailable d s) = effects s"
  by (simp_all add: ondataavailable_def)

text \<open>
  What the task of a failing recorder persists: the chunks of the session and the data
  it delivers with the error reach persistence through the stop handler, once, and
  nothing is persisted when there is neither.
\<close>

lemma persists_recorder_failed:
  assumes "mediaRecorderRef s = Some r" "rec_state r \<noteq> Inactive"
  shows "\<exists>p. filter persists (effects (recorder_failed env s)) = filter persists (effects s) @ p
           \<and> length p \<le> 1
           \<and> (recordedChunksRef s = [] \<and> blob_size (final_data env) = 0 \<longrightarrow> p = [])"
  using assms
  by (simp add: recorder_failed_def persists_onstop ondataavailable_def onerror_def)

text \<open>
  A start that sets the recording flag leaves a recorder that gathers data and the timer
  of the platform in the ref: the state of a session.
\<close>

lemma handleStartRecording_session:
  assumes "\<not> isRecording s" "isRecording (handleStartRecording env s)"
  shows "\<exists>r. mediaRecorderRef (handleStartRecording env s) = Some r
           \<and> rec_state r = Recording
           \<and> recordingTimerRef (handleStartRecording env s) = Some (setInterval_id env)"
proof -
  define s0 where "s0 = s\<lparr>recordingError := None, saveSuccess := None, recordedChunksRef := []\<rparr>"
  have s0: "\<not> isRecording s0" using assms(1) by (simp add: s0_def)
  have c: "isRecording (startRecording_catch err x) = isRecording x" for err x
    by (simp add: startRecording_catch_def split: thrown.split)
  obtain rv s1 where v: "startRecording_video env s0 = (rv, s1)"
    by (cases "startRecording_video env s0")
  have s1: "\<not> isRecording s1"
    using v s0
    by (auto simp: startRecording_video_def Let_def split: if_splits list.splits sum.splits)
  have early: "\<not> ((\<not> (isCameraEnabled s \<or> isScreenEnabled s) \<and> \<not> isMicEnabled s)
                \<or> (isScreenEnabled s \<and> screenStream s = None))"
    using assms by (auto simp: handleStartRecording_def Let_def split: if_splits)
  then have h: "handleStartRecording env s =
        (case startRecording_video env s0 of
           (Inl err, s1) \<Rightarrow> startRecording_catch err s1
         | (Inr videoTracks, s1) \<Rightarrow>
             (case startRecording_audio env videoTracks s1 of
                (Inl err, s2) \<Rightarrow> startRecording_catch err s2
              | (Inr tracks, s2) \<Rightarrow>
                  (case startRecording_recorder env tracks s2 of
                     (Some err, s3) \<Rightarrow> startRecording_catch err s3
                   | (None, s3) \<Rightarrow> s3)))"
    by (auto simp: handleStartRecording_def Let_def s0_def)
  show ?thesis
  proof (cases rv)
    case (Inl err)
    with h v s1 assms(2) show ?thesis by (simp add: c)
  next
    case (Inr vt)
    obtain ra s2 where a: "startRecording_audio env vt s1 = (ra, s2)"
      by (cases "startRecording_audio env vt s1")
    have s2: "\<not> isRecording s2"
      using a s1
      by (auto simp: startRecording_audio_def Let_def split: if_splits list.splits sum.splits)
    show ?thesis
    proof (cases ra)
      case (Inl err)
      with h v a Inr s2 assms(2) show ?thesis by (simp add: c)
    next
      case ts: (Inr ts)
      obtain rr s3 where r: "startRecording_recorder env ts s2 = (rr, s3)"
        by (cases "startRecording_recorder env ts s2")
      show ?thesis
      proof (cases rr)
        case None
        with r have "\<exists>r. mediaRecorderRef s3 = Some r \<and> rec_state r = Recording
            \<and> recordingTimerRef s3 = Some (setInterval_id env)"
          by (auto simp: startRecording_recorder_def Let_def split: option.splits)
        with h v a r Inr ts None show ?thesis by simp
      next
        case (Some err)
        with r s2 have "\<not> isRecording s3"
          by (auto simp: startRecording_recorder_def Let_def split: option.splits)
        with h v a r Inr ts Some assms(2) show ?thesis by (simp add: c)
      qed
    qed
  qed
qed



end
